theory Spec2Isabelle
  imports Main "HOL-Library.Word" "HOL-Library.Signed_Division"
begin

unbundle bit_operations_syntax

section \<open>The DHCP supplicant's control component (src/dhcp/rest-api.c)\<close>

text \<open>
  The file under verification is the main loop of the DHCP supplicant, the three
  handlers behind its REST-like control tree, the device event notifier, the device
  renderer and the seeding of the random generator. Everything else it calls (the
  device registry, the lease state machine, the XML codec, the socket layer) lives in
  other files; those calls are recorded in a trace, and what they return is taken from
  an explicit record of externals. Calls that only write to the log (\<^verbatim>\<open>ni_debug_dhcp\<close>,
  \<^verbatim>\<open>ni_warn\<close>, \<^verbatim>\<open>ni_error\<close>) are left out.
\<close>

subsection \<open>Seeding the random generator: \<^verbatim>\<open>ni_srandom\<close>\<close>

text \<open>
  What \<^verbatim>\<open>ni_srandom\<close> reads from the system: whether \<^verbatim>\<open>open("/dev/urandom")\<close> gave a
  descriptor, the return value of \<^verbatim>\<open>read(fd, &seed, 4)\<close> together with the content
  of \<^verbatim>\<open>seed\<close> after that call (the bytes the read stored, over the initial zero), the two
  fields of the \<^verbatim>\<open>struct timeval\<close> filled by \<^verbatim>\<open>gettimeofday\<close>, and \<^verbatim>\<open>getpid()\<close>. On the LP64
  targets of the daemon \<^verbatim>\<open>tv_sec\<close> and \<^verbatim>\<open>tv_usec\<close> are 64-bit signed, \<^verbatim>\<open>pid_t\<close> is a
  32-bit \<^verbatim>\<open>int\<close> and \<^verbatim>\<open>seed\<close> is a \<^verbatim>\<open>uint32_t\<close>.
\<close>

record sys_env =
  urandom_open_ok :: bool
  urandom_read_ret :: int
  urandom_read_seed :: "32 word"
  tv_usec :: "64 word"
  tv_sec :: "64 word"
  pid :: "32 word"

text \<open>C's \<^verbatim>\<open>/\<close> on \<^verbatim>\<open>long\<close>: the quotient is truncated towards zero.\<close>

definition c_div_long :: "64 word \<Rightarrow> 64 word \<Rightarrow> 64 word" where
  "c_div_long a b = word_of_int (sint a sdiv sint b)"

text \<open>
  Lines 346-352: the value of \<^verbatim>\<open>seed\<close> after the attempt to read the entropy device.
  A read that returns fewer than 4 (an error is -1) puts the seed back to zero.
\<close>

definition entropy_seed :: "sys_env \<Rightarrow> 32 word" where
  "entropy_seed e =
     (if urandom_open_ok e
      then (if urandom_read_ret e < 4 then 0 else urandom_read_seed e)
      else 0)"

text \<open>
  Lines 357-360. In \<^verbatim>\<open>tv.tv_usec ^ tv.tv_usec / 1024\<close> the division binds tighter than
  the exclusive or; the \<^verbatim>\<open>long\<close> result is cut to 32 bits by the assignment. In
  \<^verbatim>\<open>seed ^ tv.tv_sec\<close> the seed is widened to \<^verbatim>\<open>long\<close> and the result cut again; in
  \<^verbatim>\<open>seed ^ getpid()\<close> the \<^verbatim>\<open>int\<close> is converted to \<^verbatim>\<open>unsigned\<close>.
\<close>

definition fallback_seed :: "sys_env \<Rightarrow> 32 word" where
  "fallback_seed e =
     (let seed = (ucast (tv_usec e XOR c_div_long (tv_usec e) 1024) :: 32 word);
          seed = (ucast ((ucast seed :: 64 word) XOR tv_sec e) :: 32 word);
          seed = seed XOR pid e
      in seed)"

text \<open>\<^verbatim>\<open>ni_srandom\<close>: the argument of the one call of \<^verbatim>\<open>srandom\<close> (line 363).\<close>

definition ni_srandom :: "sys_env \<Rightarrow> 32 word" where
  "ni_srandom e =
     (let seed = entropy_seed e
      in if seed = 0 then fallback_seed e else seed)"

subsection \<open>Devices, leases, interface descriptions, requests\<close>

text \<open>
  Modelled from the spec: the enumeration of lease-machine states is declared in
  \<^verbatim>\<open>dhcp.h\<close>, which is not under src/. The source names four states; every other state
  of the external state machine is \<open>NI_DHCP_STATE_OTHER\<close>.
\<close>

datatype ni_dhcp_fsm_state =
    NI_DHCP_STATE_REQUESTING
  | NI_DHCP_STATE_RENEWING
  | NI_DHCP_STATE_REBINDING
  | NI_DHCP_STATE_BOUND
  | NI_DHCP_STATE_OTHER nat

text \<open>
  Modelled from the spec: \<^verbatim>\<open>ni_addrconf_lease_t\<close> is declared in a header that is not
  under src/. A lease has a kind, a protocol family, a status and protocol fields owned by
  the codec. \<open>NI_ADDRCONF_STATE_NONE\<close> and \<open>0\<close> stand for the value a zeroed record has.
\<close>

datatype ni_addrconf_type = NI_ADDRCONF_DHCP | NI_ADDRCONF_OTHER nat

datatype ni_addrconf_state =
    NI_ADDRCONF_STATE_NONE
  | NI_ADDRCONF_STATE_FAILED
  | NI_ADDRCONF_STATE_RELEASED
  | NI_ADDRCONF_STATE_OTHER nat

definition AF_INET :: nat where
  "AF_INET = 2"

record ni_addrconf_lease =
  lease_type :: ni_addrconf_type
  lease_family :: nat
  lease_state :: ni_addrconf_state
  lease_fields :: "(string \<times> string) list"

text \<open>The desired interface description, \<^verbatim>\<open>ni_interface_t\<close>: the fields the source reads.\<close>

record ni_interface =
  if_name :: string
  if_type :: nat
  if_flags :: "32 word"
  if_settings :: "(string \<times> string) list"

definition IFF_UP :: "32 word" where
  "IFF_UP = 0x1"

definition IFF_LOWER_UP :: "32 word" where
  "IFF_LOWER_UP = 0x10000"

text \<open>
  \<^verbatim>\<open>ni_dhcp_device_t\<close>: the fields the source reads or writes. The \<^verbatim>\<open>next\<close> pointer is the
  order of the list \<open>ni_dhcp_active\<close> below.
\<close>

record ni_dhcp_device =
  dev_ifname :: string
  dev_iftype :: nat
  dev_state :: ni_dhcp_fsm_state
  dev_lease :: "ni_addrconf_lease option"
  dev_failed :: bool
  dev_config :: "(string \<times> string) list option"
  dev_notify :: bool

text \<open>
  \<^verbatim>\<open>ni_wicked_request_t\<close>: the inbound body, the outbound body and the error message.
  The type \<open>'x\<close> is the XML node type of the external codec.
\<close>

record 'x ni_wicked_request =
  xml_in :: "'x option"
  xml_out :: "'x option"
  error_msg :: "string option"

text \<open>
  Modelled from the spec: \<^verbatim>\<open>werror\<close> is declared in \<^verbatim>\<open>protocol.h\<close>, not under src/; it
  attaches the error message to the request.
\<close>

definition werror :: "'x ni_wicked_request \<Rightarrow> string \<Rightarrow> 'x ni_wicked_request" where
  "werror req msg = req\<lparr>error_msg := Some msg\<rparr>"

subsection \<open>The calls that leave the file\<close>

text \<open>
  Every call into the registry, the state machine, the socket layer and the C library
  that changes something is recorded, in order. A device pointer is the position of the
  device in the active list; \<^verbatim>\<open>NULL\<close> is \<open>None\<close>. Signal deliveries are
  recorded where they happen, and so is each read of the stop flag.
\<close>

datatype call =
    Call_srandom "32 word"
  | Call_sigaction nat
  | Call_socket_activate
  | Call_fsm_get_timeout
  | Call_socket_wait
  | Call_ni_fatal
  | Ev_signal int
  | Ev_read_stop int
  | Call_fsm_check_timeout
  | Call_device_get_changed "nat option"
  | Call_write string
  | Call_fsm_release nat
  | Call_device_stop nat
  | Call_device_start nat
  | Call_device_new string nat
  | Call_device_reconfigure nat ni_interface
  | Call_dummy_open
  | Call_close
  | Call_exit int

text \<open>
  The process state: the active list \<^verbatim>\<open>ni_dhcp_active\<close> (which is also the registry that
  \<^verbatim>\<open>ni_dhcp_device_find\<close> searches), the flag \<^verbatim>\<open>ni_dhcp_stop\<close>, and the calls made so far.
\<close>

record dhcp_state =
  ni_dhcp_active :: "ni_dhcp_device list"
  ni_dhcp_stop :: int
  trace :: "call list"

definition emit :: "call \<Rightarrow> dhcp_state \<Rightarrow> dhcp_state" where
  "emit c s = s\<lparr>trace := trace s @ [c]\<rparr>"

definition dev_at :: "dhcp_state \<Rightarrow> nat \<Rightarrow> ni_dhcp_device" where
  "dev_at s i = ni_dhcp_active s ! i"

definition dev_update :: "nat \<Rightarrow> (ni_dhcp_device \<Rightarrow> ni_dhcp_device) \<Rightarrow> dhcp_state \<Rightarrow> dhcp_state" where
  "dev_update i f s = s\<lparr>ni_dhcp_active := (ni_dhcp_active s)[i := f (ni_dhcp_active s ! i)]\<rparr>"

text \<open>
  What the functions outside the file return and do to the device they are given. They
  are parameters of the model: the XML codec (\<^verbatim>\<open>ni_syntax_xml_from_lease\<close>, absent result
  \<open>None\<close>; \<^verbatim>\<open>xml_node_print\<close>), the parser of interface descriptions
  (\<^verbatim>\<open>ni_dummy_open\<close>, \<^verbatim>\<open>__ni_syntax_xml_to_all\<close> with \<open>None\<close> for a negative return), and
  the effect on the device record of \<^verbatim>\<open>ni_dhcp_device_reconfigure\<close> (with its return
  value), \<^verbatim>\<open>ni_dhcp_device_stop\<close>, \<^verbatim>\<open>ni_dhcp_device_start\<close> and \<^verbatim>\<open>ni_dhcp_fsm_release\<close>.
  Each of the four changes the device it is given and no other, and leaves the order of
  the active list as it is.
\<close>

record 'x externals =
  ext_xml_from_lease :: "ni_addrconf_lease \<Rightarrow> 'x option"
  ext_xml_node_print :: "'x \<Rightarrow> string"
  ext_dummy_open_ok :: bool
  ext_xml_to_all :: "'x option \<Rightarrow> ni_interface list option"
  ext_device_reconfigure :: "ni_dhcp_device \<Rightarrow> ni_interface \<Rightarrow> int \<times> ni_dhcp_device"
  ext_device_stop :: "ni_dhcp_device \<Rightarrow> ni_dhcp_device"
  ext_device_start :: "ni_dhcp_device \<Rightarrow> ni_dhcp_device"
  ext_fsm_release :: "ni_dhcp_device \<Rightarrow> ni_dhcp_device"

definition ni_dhcp_device_stop :: "'x externals \<Rightarrow> nat \<Rightarrow> dhcp_state \<Rightarrow> dhcp_state" where
  "ni_dhcp_device_stop X i s = emit (Call_device_stop i) (dev_update i (ext_device_stop X) s)"

definition ni_dhcp_device_start :: "'x externals \<Rightarrow> nat \<Rightarrow> dhcp_state \<Rightarrow> dhcp_state" where
  "ni_dhcp_device_start X i s = emit (Call_device_start i) (dev_update i (ext_device_start X) s)"

definition ni_dhcp_fsm_release :: "'x externals \<Rightarrow> nat \<Rightarrow> dhcp_state \<Rightarrow> dhcp_state" where
  "ni_dhcp_fsm_release X i s = emit (Call_fsm_release i) (dev_update i (ext_fsm_release X) s)"

definition ni_dhcp_device_reconfigure ::
  "'x externals \<Rightarrow> nat \<Rightarrow> ni_interface \<Rightarrow> dhcp_state \<Rightarrow> int \<times> dhcp_state" where
  "ni_dhcp_device_reconfigure X i ifp s =
     (let (rv, d) = ext_device_reconfigure X (dev_at s i) ifp
      in (rv, emit (Call_device_reconfigure i ifp) (dev_update i (\<lambda>_. d) s)))"

text \<open>
  Modelled from the spec: \<^verbatim>\<open>ni_dhcp_device_find\<close> is not under src/. It looks a device
  up by interface name in the registry; the result is the first device of that name.
\<close>

fun find_device :: "string \<Rightarrow> ni_dhcp_device list \<Rightarrow> nat option" where
  "find_device n [] = None"
| "find_device n (d # ds) =
     (if dev_ifname d = n then Some 0 else map_option Suc (find_device n ds))"

definition ni_dhcp_device_find :: "string \<Rightarrow> dhcp_state \<Rightarrow> nat option" where
  "ni_dhcp_device_find n s = find_device n (ni_dhcp_active s)"

text \<open>
  Modelled from the spec: \<^verbatim>\<open>ni_dhcp_device_new\<close> is not under src/. It creates a device
  with the given name and link type, every other field zero, and puts it at the end of
  the active list.
\<close>

definition new_device :: "string \<Rightarrow> nat \<Rightarrow> ni_dhcp_device" where
  "new_device n t =
     \<lparr>dev_ifname = n, dev_iftype = t, dev_state = NI_DHCP_STATE_OTHER 0, dev_lease = None,
      dev_failed = False, dev_config = None, dev_notify = False\<rparr>"

definition ni_dhcp_device_new :: "string \<Rightarrow> nat \<Rightarrow> dhcp_state \<Rightarrow> nat \<times> dhcp_state" where
  "ni_dhcp_device_new n t s =
     (length (ni_dhcp_active s),
      emit (Call_device_new n t) (s\<lparr>ni_dhcp_active := ni_dhcp_active s @ [new_device n t]\<rparr>))"

text \<open>
  Modelled from the spec: \<^verbatim>\<open>ni_interface_by_name\<close> is not under src/. It locates the
  interface description of the given name in the parsed store.
\<close>

definition ni_interface_by_name :: "ni_interface list \<Rightarrow> string \<Rightarrow> ni_interface option" where
  "ni_interface_by_name ifs n = find (\<lambda>ifp. if_name ifp = n) ifs"

subsection \<open>Rendering a device: \<^verbatim>\<open>dhcp_device_xml\<close>\<close>

text \<open>Lines 163-165: the zeroed dummy lease with its kind and family set.\<close>

definition dummy_lease :: ni_addrconf_lease where
  "dummy_lease =
     \<lparr>lease_type = NI_ADDRCONF_OTHER 0, lease_family = 0, lease_state = NI_ADDRCONF_STATE_NONE,
      lease_fields = []\<rparr>
     \<lparr>lease_type := NI_ADDRCONF_DHCP, lease_family := AF_INET\<rparr>"

text \<open>Lines 166-174: the lease that is handed to the codec.\<close>

definition device_lease :: "ni_dhcp_device \<Rightarrow> ni_addrconf_lease" where
  "device_lease dev =
     (if dev_failed dev then dummy_lease\<lparr>lease_state := NI_ADDRCONF_STATE_FAILED\<rparr>
      else (case dev_lease dev of
              Some l \<Rightarrow> l
            | None \<Rightarrow> dummy_lease\<lparr>lease_state := NI_ADDRCONF_STATE_RELEASED\<rparr>))"

definition dhcp_device_xml :: "'x externals \<Rightarrow> ni_dhcp_device \<Rightarrow> 'x option" where
  "dhcp_device_xml X dev = ext_xml_from_lease X (device_lease dev)"

subsection \<open>The handlers\<close>

text \<open>\<^verbatim>\<open>dhcp_device_response\<close>: the return value and the request.\<close>

definition dhcp_device_response ::
  "'x externals \<Rightarrow> ni_dhcp_device \<Rightarrow> 'x ni_wicked_request \<Rightarrow> int \<times> 'x ni_wicked_request" where
  "dhcp_device_response X dev req =
     (let req = req\<lparr>xml_out := dhcp_device_xml X dev\<rparr>
      in if xml_out req = None then (- 1, werror req ''cannot render interface information'')
         else (0, req))"

text \<open>\<^verbatim>\<open>dhcp_device_get\<close>, GET /device: return value, request and process state.\<close>

definition dhcp_device_get ::
  "'x externals \<Rightarrow> string option \<Rightarrow> 'x ni_wicked_request \<Rightarrow> dhcp_state
     \<Rightarrow> int \<times> 'x ni_wicked_request \<times> dhcp_state" where
  "dhcp_device_get X ifname req s =
     (case ifname of
        None \<Rightarrow> (- 1, werror req ''need to specify interface'', s)
      | Some n \<Rightarrow>
          (case ni_dhcp_device_find n s of
             None \<Rightarrow> (- 1, werror req (''interface '' @ n @ '' not known''), s)
           | Some i \<Rightarrow>
               (let (rv, req) = dhcp_device_response X (dev_at s i) req in (rv, req, s))))"


text \<open>
  \<^verbatim>\<open>dhcp_interface_put\<close>, PUT /interface. A null pointer that is dereferenced ends the
  process; that is the result \<open>Inl Null_dereference\<close>.
\<close>

datatype crash = Null_dereference

text \<open>
  Lines 253-270: the device pointer, the local \<^verbatim>\<open>reacquire\<close> and the process state
  after the branch on \<^verbatim>\<open>IFF_UP\<close>. In the else branch \<^verbatim>\<open>ni_dhcp_device_stop\<close> is called
  with whatever the lookup gave; with \<^verbatim>\<open>NULL\<close> no device changes.
\<close>

definition put_decide ::
  "'x externals \<Rightarrow> ni_interface \<Rightarrow> dhcp_state \<Rightarrow> nat option \<times> bool \<times> dhcp_state" where
  "put_decide X ifp s =
     (let dev = ni_dhcp_device_find (if_name ifp) s
      in if if_flags ifp AND IFF_UP \<noteq> 0
         then
           (let dev = ni_dhcp_device_find (if_name ifp) s
            in case dev of
                 Some i \<Rightarrow>
                   (let (rv, s) = ni_dhcp_device_reconfigure X i ifp s;
                        reacquire = (rv \<noteq> 0);
                        reacquire =
                          (if dev_state (dev_at s i) \<noteq> NI_DHCP_STATE_BOUND then True
                           else reacquire)
                    in (Some i, reacquire, s))
               | None \<Rightarrow>
                   (let (i, s) = ni_dhcp_device_new (if_name ifp) (if_type ifp) s;
                        (rv, s) = ni_dhcp_device_reconfigure X i ifp s
                    in (Some i, True, s)))
         else
           (dev, False, (case dev of Some i \<Rightarrow> ni_dhcp_device_stop X i s | None \<Rightarrow> s)))"

text \<open>
  Lines 271-281. The branch on \<^verbatim>\<open>IFF_LOWER_UP\<close> is empty on both sides. Then
  \<^verbatim>\<open>dev->notify\<close> is written or \<^verbatim>\<open>dev->config\<close> is read, with no test of \<^verbatim>\<open>dev\<close>.
\<close>

definition put_finish ::
  "'x externals \<Rightarrow> nat option \<Rightarrow> bool \<Rightarrow> dhcp_state \<Rightarrow> crash + dhcp_state" where
  "put_finish X dev reacquire s =
     (if \<not> reacquire
      then (case dev of
              None \<Rightarrow> Inl Null_dereference
            | Some i \<Rightarrow> Inr (dev_update i (\<lambda>d. d\<lparr>dev_notify := True\<rparr>) s))
      else (case dev of
              None \<Rightarrow> Inl Null_dereference
            | Some i \<Rightarrow>
                if dev_config (dev_at s i) \<noteq> None then Inr (ni_dhcp_device_start X i s)
                else Inr s))"

definition dhcp_interface_put ::
  "'x externals \<Rightarrow> string option \<Rightarrow> 'x ni_wicked_request \<Rightarrow> dhcp_state
     \<Rightarrow> crash + (int \<times> 'x ni_wicked_request \<times> dhcp_state)" where
  "dhcp_interface_put X ifname req s =
     (case ifname of
        None \<Rightarrow> Inr (- 1, werror req ''no interface name given'', s)
      | Some n \<Rightarrow>
          if \<not> ext_dummy_open_ok X
          then Inr (- 1, werror req ''unable to create netinfo dummy handle'', s)
          else
            (let s = emit Call_dummy_open s
             in case ext_xml_to_all X (xml_in req) of
                  None \<Rightarrow>
                    Inr (- 1, werror req ''unable to parse interface configuration'',
                         emit Call_close s)
                | Some ifs \<Rightarrow>
                    (case ni_interface_by_name ifs n of
                       None \<Rightarrow>
                         Inr (- 1,
                              werror req (''cannot find configuration for interface '' @ n),
                              emit Call_close s)
                     | Some ifp \<Rightarrow>
                         (let (dev, reacquire, s) = put_decide X ifp s
                          in case put_finish X dev reacquire s of
                               Inl c \<Rightarrow> Inl c
                             | Inr s \<Rightarrow> Inr (0, req, emit Call_close s)))))"

subsection \<open>The device event notifier: \<^verbatim>\<open>ni_dhcp_send_device_event\<close>\<close>

text \<open>
  The C library, as POSIX specifies it. A stream opened by \<^verbatim>\<open>fmemopen(buf, size, "w")\<close>
  stores the bytes written to it as long as they fit and drops the rest (the calls that
  write report an error, which the source does not look at); when it is closed a null
  byte is stored behind the data, or in the last byte of the buffer when the data reached
  it. \<open>fmemopen_w sz data\<close> is the part of the buffer that is defined after
  \<^verbatim>\<open>fclose\<close>. \<open>c_strlen_bytes\<close> is the bytes that \<^verbatim>\<open>strlen\<close> counts.
\<close>

definition fmemopen_w :: "nat \<Rightarrow> string \<Rightarrow> string" where
  "fmemopen_w sz data = take (sz - 1) data @ [CHR 0x00]"

definition c_strlen_bytes :: "string \<Rightarrow> string" where
  "c_strlen_bytes buf = takeWhile (\<lambda>c. c \<noteq> CHR 0x00) buf"

text \<open>Line 145 and 146: what is printed to the stream.\<close>

definition event_text :: "'x externals \<Rightarrow> ni_dhcp_device \<Rightarrow> 'x \<Rightarrow> string" where
  "event_text X dev devnode =
     ''POST /system/event/'' @ dev_ifname dev @ [CHR 0x0A, CHR 0x0A]
       @ ext_xml_node_print X devnode"

definition ni_dhcp_send_device_event :: "'x externals \<Rightarrow> nat \<Rightarrow> dhcp_state \<Rightarrow> dhcp_state" where
  "ni_dhcp_send_device_event X i s =
     (case dhcp_device_xml X (dev_at s i) of
        None \<Rightarrow> s
      | Some devnode \<Rightarrow>
          (let event = fmemopen_w 65536 (event_text X (dev_at s i) devnode)
           in emit (Call_write (c_strlen_bytes event)) s))"

subsection \<open>The main loop: \<^verbatim>\<open>ni_dhcp_run\<close>\<close>

datatype signal = SIGINT | SIGTERM

fun signum :: "signal \<Rightarrow> int" where
  "signum SIGINT = 2"
| "signum SIGTERM = 15"

definition catch_fatal_signals :: "signal \<Rightarrow> dhcp_state \<Rightarrow> dhcp_state" where
  "catch_fatal_signals sig s = emit (Ev_signal (signum sig)) (s\<lparr>ni_dhcp_stop := signum sig\<rparr>)"

definition deliver :: "signal list \<Rightarrow> dhcp_state \<Rightarrow> dhcp_state" where
  "deliver sigs s = fold catch_fatal_signals sigs s"

text \<open>
  What one pass of the loop gets from outside: the signals delivered while
  \<^verbatim>\<open>ni_dhcp_fsm_get_timeout\<close> and \<^verbatim>\<open>ni_socket_wait\<close> run, the return value of the wait and
  what the requests and packets handled inside it did to the registry; the signals
  delivered during the timer sweep and what the sweep did to the registry; the signals
  delivered while the changed devices are notified.
\<close>

record loop_pass =
  sig_wait :: "signal list"
  wait_ret :: int
  wait_effect :: "ni_dhcp_device list \<Rightarrow> ni_dhcp_device list"
  sig_sweep :: "signal list"
  sweep_effect :: "ni_dhcp_device list \<Rightarrow> ni_dhcp_device list"
  sig_drain :: "signal list"

definition ni_socket_wait :: "loop_pass \<Rightarrow> dhcp_state \<Rightarrow> int \<times> dhcp_state" where
  "ni_socket_wait p s =
     (let s = emit Call_socket_wait s;
          s = s\<lparr>ni_dhcp_active := wait_effect p (ni_dhcp_active s)\<rparr>;
          s = deliver (sig_wait p) s
      in (wait_ret p, s))"

definition ni_dhcp_fsm_check_timeout :: "loop_pass \<Rightarrow> dhcp_state \<Rightarrow> dhcp_state" where
  "ni_dhcp_fsm_check_timeout p s =
     (let s = emit Call_fsm_check_timeout s;
          s = s\<lparr>ni_dhcp_active := sweep_effect p (ni_dhcp_active s)\<rparr>;
          s = deliver (sig_sweep p) s
      in s)"

text \<open>
  Modelled from the spec: \<^verbatim>\<open>ni_dhcp_device_get_changed\<close> is not under src/. It gives a
  device whose pending-notify flag is set and clears the flag, or \<^verbatim>\<open>NULL\<close> when no flag
  is set.
\<close>

fun find_changed :: "ni_dhcp_device list \<Rightarrow> nat option" where
  "find_changed [] = None"
| "find_changed (d # ds) = (if dev_notify d then Some 0 else map_option Suc (find_changed ds))"

definition ni_dhcp_device_get_changed :: "dhcp_state \<Rightarrow> nat option \<times> dhcp_state" where
  "ni_dhcp_device_get_changed s =
     (case find_changed (ni_dhcp_active s) of
        None \<Rightarrow> (None, emit (Call_device_get_changed None) s)
      | Some i \<Rightarrow>
          (Some i,
           emit (Call_device_get_changed (Some i))
             (dev_update i (\<lambda>d. d\<lparr>dev_notify := False\<rparr>) s)))"

text \<open>
  Lines 85-86: \<^verbatim>\<open>while ((dev = ni_dhcp_device_get_changed()) != NULL)\<close>. Each round clears
  one flag, so the loop ends.
\<close>

function drain_changed :: "'x externals \<Rightarrow> dhcp_state \<Rightarrow> dhcp_state" where
  "drain_changed X s =
     (let (dev, s) = ni_dhcp_device_get_changed s
      in case dev of
           None \<Rightarrow> s
         | Some i \<Rightarrow> drain_changed X (ni_dhcp_send_device_event X i s))"
  by pat_completeness auto
termination
proof (relation "measure (\<lambda>(X, s). length (filter dev_notify (ni_dhcp_active s)))")
  show "wf (measure (\<lambda>(X :: 'x externals, s). length (filter dev_notify (ni_dhcp_active s))))"
    by simp
next
  fix X :: "'x externals" and s x dev s' i
  assume a: "x = ni_dhcp_device_get_changed s" "(dev, s') = x" "dev = Some i"
  have less: "find_changed ds = Some j \<Longrightarrow>
      length (filter dev_notify (ds[j := (ds ! j)\<lparr>dev_notify := False\<rparr>]))
        < length (filter dev_notify ds)" for ds j
  proof (induction ds arbitrary: j)
    case Nil
    then show ?case by simp
  next
    case (Cons d ds)
    show ?case
    proof (cases "dev_notify d")
      case True
      with Cons.prems show ?thesis by simp
    next
      case False
      with Cons.prems obtain k where "find_changed ds = Some k" "j = Suc k" by auto
      with Cons.IH False show ?thesis by simp
    qed
  qed
  have same: "ni_dhcp_active (ni_dhcp_send_device_event X i s') = ni_dhcp_active s'"
    by (simp add: ni_dhcp_send_device_event_def emit_def Let_def split: option.split)
  from a have found: "find_changed (ni_dhcp_active s) = Some i"
    by (auto simp: ni_dhcp_device_get_changed_def split: option.splits)
  with a have "ni_dhcp_active s'
      = (ni_dhcp_active s)[i := (ni_dhcp_active s ! i)\<lparr>dev_notify := False\<rparr>]"
    by (auto simp: ni_dhcp_device_get_changed_def emit_def dev_update_def)
  with less [OF found] same
  show "((X, ni_dhcp_send_device_event X i s'), X, s)
     \<in> measure (\<lambda>(X, s). length (filter dev_notify (ni_dhcp_active s)))"
    by simp
qed

declare drain_changed.simps [simp del]

text \<open>
  Lines 82-86: the timer sweep and the notification of the changed devices, the part of a
  pass that follows the test of the stop flag.
\<close>

definition sweep_and_notify :: "'x externals \<Rightarrow> loop_pass \<Rightarrow> dhcp_state \<Rightarrow> dhcp_state" where
  "sweep_and_notify X p s =
     (let s = ni_dhcp_fsm_check_timeout p s;
          s = drain_changed X s;
          s = deliver (sig_drain p) s
      in s)"

text \<open>
  Lines 64-87. The loop goes on as long as passes are supplied; \<open>Loop_running\<close> says
  that it has not been left yet. \<^verbatim>\<open>ni_fatal\<close> ends the process at once. The stop
  flag is tested once in each pass, at line 77 (when it is set, line 78 reads it a second
  time, for the debug message only).
\<close>

datatype loop_exit = Loop_break | Loop_fatal | Loop_running

fun event_loop :: "'x externals \<Rightarrow> loop_pass list \<Rightarrow> dhcp_state \<Rightarrow> loop_exit \<times> dhcp_state" where
  "event_loop X [] s = (Loop_running, s)"
| "event_loop X (p # ps) s =
     (let s = emit Call_fsm_get_timeout s;
          (rv, s) = ni_socket_wait p s
      in if rv < 0 then (Loop_fatal, emit Call_ni_fatal s)
         else
           (let s = emit (Ev_read_stop (ni_dhcp_stop s)) s
            in if ni_dhcp_stop s \<noteq> 0 then (Loop_break, s)
               else event_loop X ps (sweep_and_notify X p s)))"

text \<open>Lines 90-99: the body of the loop over the active list, for the device at \<open>i\<close>.\<close>

definition shutdown_device :: "'x externals \<Rightarrow> nat \<Rightarrow> dhcp_state \<Rightarrow> dhcp_state" where
  "shutdown_device X i s =
     (let s = (case dev_state (dev_at s i) of
                 NI_DHCP_STATE_REQUESTING \<Rightarrow>
                   if dev_lease (dev_at s i) \<noteq> None then ni_dhcp_fsm_release X i s else s
               | NI_DHCP_STATE_RENEWING \<Rightarrow>
                   if dev_lease (dev_at s i) \<noteq> None then ni_dhcp_fsm_release X i s else s
               | NI_DHCP_STATE_REBINDING \<Rightarrow>
                   if dev_lease (dev_at s i) \<noteq> None then ni_dhcp_fsm_release X i s else s
               | NI_DHCP_STATE_BOUND \<Rightarrow>
                   if dev_lease (dev_at s i) \<noteq> None then ni_dhcp_fsm_release X i s else s
               | NI_DHCP_STATE_OTHER _ \<Rightarrow> s)
      in ni_dhcp_device_stop X i s)"

text \<open>
  Lines 89-102: the walk from the head of the active list along \<^verbatim>\<open>next\<close>, then
  \<^verbatim>\<open>exit(0)\<close>.
\<close>

definition shutdown :: "'x externals \<Rightarrow> dhcp_state \<Rightarrow> dhcp_state" where
  "shutdown X s =
     emit (Call_exit 0) (fold (shutdown_device X) [0..<length (ni_dhcp_active s)] s)"

datatype run_result = Run_exit int | Run_fatal | Run_looping

text \<open>
  Lines 53-61, what happens before the loop is entered: the seed, the handler for
  SIGTERM (15) and SIGINT (2), the activation of the socket.
\<close>

definition ni_dhcp_run_startup :: "sys_env \<Rightarrow> dhcp_state \<Rightarrow> dhcp_state" where
  "ni_dhcp_run_startup e s =
     (let s = emit (Call_srandom (ni_srandom e)) s;
          s = emit (Call_sigaction 15) s;
          s = emit (Call_sigaction 2) s;
          s = emit Call_socket_activate s
      in s)"

text \<open>
  \<^verbatim>\<open>ni_dhcp_run\<close>: the startup, the loop and, once the loop is left on the stop flag,
  the shutdown.
\<close>

definition ni_dhcp_run ::
  "'x externals \<Rightarrow> sys_env \<Rightarrow> loop_pass list \<Rightarrow> dhcp_state \<Rightarrow> run_result \<times> dhcp_state" where
  "ni_dhcp_run X e passes s =
     (let s = ni_dhcp_run_startup e s;
          (ex, s) = event_loop X passes s
      in case ex of
           Loop_break \<Rightarrow> (Run_exit 0, shutdown X s)
         | Loop_fatal \<Rightarrow> (Run_fatal, s)
         | Loop_running \<Rightarrow> (Run_looping, s))"

subsection \<open>Reading the trace\<close>

text \<open>The calls made between two states, the second reached from the first.\<close>

definition calls_since :: "dhcp_state \<Rightarrow> dhcp_state \<Rightarrow> call list" where
  "calls_since s s' = drop (length (trace s)) (trace s')"

fun is_read_stop :: "call \<Rightarrow> bool" where
  "is_read_stop (Ev_read_stop v) = True"
| "is_read_stop c = False"

text \<open>
  The entries that are neither a step of the loop itself nor a call of the shutdown: a
  signal delivery, a device handed out by \<^verbatim>\<open>ni_dhcp_device_get_changed\<close>, a write to the
  socket.
\<close>

fun quiet_call :: "call \<Rightarrow> bool" where
  "quiet_call (Ev_signal v) = True"
| "quiet_call (Call_write w) = True"
| "quiet_call (Call_device_get_changed (Some i)) = True"
| "quiet_call c = False"

text \<open>
  The entries of a drain of the changed devices before its last call: a device handed
  out, a write to the socket.
\<close>

fun notify_call :: "call \<Rightarrow> bool" where
  "notify_call (Call_write w) = True"
| "notify_call (Call_device_get_changed (Some i)) = True"
| "notify_call c = False"

text \<open>The trace entries of a sequence of signal deliveries.\<close>

definition sig_events :: "signal list \<Rightarrow> call list" where
  "sig_events sigs = map (\<lambda>sig. Ev_signal (signum sig)) sigs"

text \<open>
  The value of the stop flag after a sequence of signal deliveries, from the value \<open>v\<close>
  before them: the number of the signal delivered last, or \<open>v\<close> when none is delivered.
\<close>

definition recorded :: "signal list \<Rightarrow> int \<Rightarrow> int" where
  "recorded sigs v = (if sigs = [] then v else signum (last sigs))"

fun is_srandom :: "call \<Rightarrow> bool" where
  "is_srandom (Call_srandom w) = True"
| "is_srandom c = False"

text \<open>
  The condition of the shutdown sequence as the specification words it: the state is
  one of REQUESTING, RENEWING, REBINDING, BOUND and the lease is not absent.
\<close>

definition release_due :: "ni_dhcp_device \<Rightarrow> bool" where
  "release_due d \<longleftrightarrow>
     dev_state d \<in> {NI_DHCP_STATE_REQUESTING, NI_DHCP_STATE_RENEWING,
                    NI_DHCP_STATE_REBINDING, NI_DHCP_STATE_BOUND}
     \<and> dev_lease d \<noteq> None"

subsection \<open>A concrete environment\<close>

text \<open>
  One instance of the externals, used to run the model on concrete inputs: an XML node
  is its printed text, the codec renders a lease to its status word and fails on a lease
  of another family, a reconfiguration attaches the settings of the interface description
  and reports whether they differ from the attached ones, stopping a device drops its
  lease and its configuration, starting it puts it into REQUESTING, releasing drops the
  lease.
\<close>

definition render_status :: "ni_addrconf_lease \<Rightarrow> string option" where
  "render_status l =
     (if lease_family l \<noteq> AF_INET then None
      else Some (case lease_state l of
                   NI_ADDRCONF_STATE_FAILED \<Rightarrow> ''<lease><state>failed</state></lease>''
                 | NI_ADDRCONF_STATE_RELEASED \<Rightarrow> ''<lease><state>released</state></lease>''
                 | _ \<Rightarrow> ''<lease><state>granted</state></lease>''))"

definition sample_externals :: "string externals" where
  "sample_externals =
     \<lparr>ext_xml_from_lease = render_status,
      ext_xml_node_print = (\<lambda>x. x),
      ext_dummy_open_ok = True,
      ext_xml_to_all =
        (\<lambda>x. case x of
                None \<Rightarrow> None
              | Some n \<Rightarrow>
                  Some [\<lparr>if_name = take 4 n, if_type = 1,
                         if_flags = (if drop 4 n = ''up'' then 0x10001 else 0),
                         if_settings = []\<rparr>]),
      ext_device_reconfigure =
        (\<lambda>d ifp. (if dev_config d = Some (if_settings ifp) then 0 else 1,
                   d\<lparr>dev_config := Some (if_settings ifp)\<rparr>)),
      ext_device_stop =
        (\<lambda>d. d\<lparr>dev_state := NI_DHCP_STATE_OTHER 0, dev_lease := None, dev_config := None\<rparr>),
      ext_device_start = (\<lambda>d. d\<lparr>dev_state := NI_DHCP_STATE_REQUESTING\<rparr>),
      ext_fsm_release = (\<lambda>d. d\<lparr>dev_lease := None\<rparr>)\<rparr>"

definition bound_lease :: ni_addrconf_lease where
  "bound_lease =
     \<lparr>lease_type = NI_ADDRCONF_DHCP, lease_family = AF_INET,
      lease_state = NI_ADDRCONF_STATE_OTHER 1, lease_fields = [(''address'', ''192.0.2.7'')]\<rparr>"

definition eth0_bound :: ni_dhcp_device where
  "eth0_bound =
     \<lparr>dev_ifname = ''eth0'', dev_iftype = 1, dev_state = NI_DHCP_STATE_BOUND,
      dev_lease = Some bound_lease, dev_failed = False, dev_config = Some [],
      dev_notify = False\<rparr>"

definition eth1_idle :: ni_dhcp_device where
  "eth1_idle =
     \<lparr>dev_ifname = ''eth1'', dev_iftype = 1, dev_state = NI_DHCP_STATE_OTHER 0,
      dev_lease = None, dev_failed = False, dev_config = None, dev_notify = False\<rparr>"

definition state0 :: "ni_dhcp_device list \<Rightarrow> dhcp_state" where
  "state0 devs = \<lparr>ni_dhcp_active = devs, ni_dhcp_stop = 0, trace = []\<rparr>"

definition request0 :: "string option \<Rightarrow> string ni_wicked_request" where
  "request0 body = \<lparr>xml_in = body, xml_out = None, error_msg = None\<rparr>"


text \<open>A codec whose document for every lease is 65536 bytes long.\<close>

definition big_externals :: "string externals" where
  "big_externals =
     sample_externals\<lparr>ext_xml_from_lease := (\<lambda>l. Some (replicate 65536 (CHR ''x'')))\<rparr>"

text \<open>
  Two passes of the loop: one in which SIGTERM arrives while the process waits for the
  sockets, one in which it arrives during the timer sweep.
\<close>

definition pass_signal_in_wait :: loop_pass where
  "pass_signal_in_wait =
     \<lparr>sig_wait = [SIGTERM], wait_ret = 0, wait_effect = (\<lambda>ds. ds),
      sig_sweep = [], sweep_effect = (\<lambda>ds. ds), sig_drain = []\<rparr>"

definition pass_signal_in_sweep :: loop_pass where
  "pass_signal_in_sweep =
     \<lparr>sig_wait = [], wait_ret = 1, wait_effect = (\<lambda>ds. ds),
      sig_sweep = [SIGTERM], sweep_effect = map (\<lambda>d. d\<lparr>dev_notify := True\<rparr>),
      sig_drain = []\<rparr>"

definition pass_wait_fails :: loop_pass where
  "pass_wait_fails =
     \<lparr>sig_wait = [], wait_ret = - 1, wait_effect = (\<lambda>ds. ds),
      sig_sweep = [], sweep_effect = (\<lambda>ds. ds), sig_drain = []\<rparr>"

definition pass_quiet :: loop_pass where
  "pass_quiet =
     \<lparr>sig_wait = [], wait_ret = 0, wait_effect = (\<lambda>ds. ds),
      sig_sweep = [], sweep_effect = (\<lambda>ds. ds), sig_drain = []\<rparr>"

definition failed_open_env :: sys_env where
  "failed_open_env =
     \<lparr>urandom_open_ok = False, urandom_read_ret = - 1, urandom_read_seed = 0,
      tv_usec = 500000, tv_sec = 1000000000, pid = 42\<rparr>"

definition partial_read_env :: sys_env where
  "partial_read_env =
     \<lparr>urandom_open_ok = True, urandom_read_ret = 2, urandom_read_seed = 0xBEEF,
      tv_usec = 500000, tv_sec = 1000000000, pid = 42\<rparr>"

section \<open>Properties\<close>

subsection \<open>Helper facts about the trace and the registry\<close>

lemma fallback_seed_eq:
  "fallback_seed e
     = ucast (tv_usec e XOR c_div_long (tv_usec e) 1024) XOR ucast (tv_sec e) XOR pid e"
  by (auto simp: fallback_seed_def Let_def unsigned_xor_eq unsigned_ucast_eq bit_eq_iff bit_simps)

lemma emit_simps [simp]:
  "trace (emit c s) = trace s @ [c]"
  "ni_dhcp_active (emit c s) = ni_dhcp_active s"
  "ni_dhcp_stop (emit c s) = ni_dhcp_stop s"
  by (simp_all add: emit_def)

lemma dev_update_simps [simp]:
  "trace (dev_update i f s) = trace s"
  "ni_dhcp_active (dev_update i f s) = (ni_dhcp_active s)[i := f (ni_dhcp_active s ! i)]"
  "ni_dhcp_stop (dev_update i f s) = ni_dhcp_stop s"
  by (simp_all add: dev_update_def)

lemma find_device_Some:
  "find_device n ds = Some i \<Longrightarrow> i < length ds \<and> dev_ifname (ds ! i) = n"
  by (induction ds arbitrary: i) (auto split: if_splits)


lemma interface_by_name_Some:
  "ni_interface_by_name ifs n = Some ifp \<Longrightarrow> if_name ifp = n"
  by (auto simp: ni_interface_by_name_def find_Some_iff)

lemma put_decide_down_none:
  "if_flags ifp AND IFF_UP = 0 \<Longrightarrow> ni_dhcp_device_find (if_name ifp) s = None \<Longrightarrow>
   put_decide X ifp s = (None, False, s)"
  by (simp add: put_decide_def)

lemma takeWhile_snoc_stop:
  "\<not> P c \<Longrightarrow> takeWhile P (xs @ [c]) = takeWhile P xs"
  by (induction xs) simp_all

lemma send_event_render_fails:
  "dhcp_device_xml X (dev_at s i) = None \<Longrightarrow> ni_dhcp_send_device_event X i s = s"
  by (simp add: ni_dhcp_send_device_event_def)

lemma send_event_exact_when_fits:
  assumes "dhcp_device_xml X (dev_at s i) = Some node"
    and "length (event_text X (dev_at s i) node) < 65536"
    and "CHR 0x00 \<notin> set (event_text X (dev_at s i) node)"
  shows "trace (ni_dhcp_send_device_event X i s)
     = trace s @ [Call_write (event_text X (dev_at s i) node)]"
proof -
  from assms(3) have "takeWhile (\<lambda>c. c \<noteq> CHR 0x00) (event_text X (dev_at s i) node @ [CHR 0x00])
      = event_text X (dev_at s i) node"
    by (subst takeWhile_append2) auto
  with assms(1,2) show ?thesis
    by (simp add: ni_dhcp_send_device_event_def fmemopen_w_def c_strlen_bytes_def)
qed

lemma shutdown_device_effect:
  "trace (shutdown_device X i s)
     = trace s @ (if release_due (ni_dhcp_active s ! i) then [Call_fsm_release i] else [])
         @ [Call_device_stop i]
   \<and> length (ni_dhcp_active (shutdown_device X i s)) = length (ni_dhcp_active s)
   \<and> (\<forall>j. j \<noteq> i \<longrightarrow> ni_dhcp_active (shutdown_device X i s) ! j = ni_dhcp_active s ! j)"
  by (cases "dev_state (ni_dhcp_active s ! i)")
    (simp_all add: shutdown_device_def release_due_def dev_at_def ni_dhcp_fsm_release_def
      ni_dhcp_device_stop_def Let_def)

lemma shutdown_fold:
  "k \<le> length (ni_dhcp_active s) \<Longrightarrow>
   trace (fold (shutdown_device X) [0..<k] s)
     = trace s @ concat (map (\<lambda>i. (if release_due (ni_dhcp_active s ! i)
                                     then [Call_fsm_release i] else [])
                                  @ [Call_device_stop i]) [0..<k])
   \<and> length (ni_dhcp_active (fold (shutdown_device X) [0..<k] s)) = length (ni_dhcp_active s)
   \<and> (\<forall>j\<ge>k. ni_dhcp_active (fold (shutdown_device X) [0..<k] s) ! j = ni_dhcp_active s ! j)"
proof (induction k)
  case 0
  then show ?case by simp
next
  case (Suc k)
  let ?m = "fold (shutdown_device X) [0..<k] s"
  from Suc have ih: "trace ?m = trace s @ concat (map (\<lambda>i. (if release_due (ni_dhcp_active s ! i)
                                     then [Call_fsm_release i] else [])
                                  @ [Call_device_stop i]) [0..<k])"
    "length (ni_dhcp_active ?m) = length (ni_dhcp_active s)"
    "\<forall>j\<ge>k. ni_dhcp_active ?m ! j = ni_dhcp_active s ! j"
    by simp_all
  have step: "fold (shutdown_device X) [0..<Suc k] s = shutdown_device X k ?m"
    by simp
  from shutdown_device_effect [of X k ?m] ih show ?case
    unfolding step by simp
qed

lemma count_shutdown_release:
  "count_list (concat (map (\<lambda>i. (if release_due (ds ! i) then [Call_fsm_release i] else [])
                                  @ [Call_device_stop i]) [0..<k])) (Call_fsm_release j)
     = (if j < k \<and> release_due (ds ! j) then 1 else 0)"
  by (induction k) (auto simp: less_Suc_eq)

lemma count_shutdown_stop:
  "count_list (concat (map (\<lambda>i. (if release_due (ds ! i) then [Call_fsm_release i] else [])
                                  @ [Call_device_stop i]) [0..<k])) (Call_device_stop j)
     = (if j < k then 1 else 0)"
  by (induction k) (auto simp: less_Suc_eq)

lemma failed_open_seed: "ni_srandom failed_open_env = 1000172258"
  by (simp add: ni_srandom_def failed_open_env_def entropy_seed_def fallback_seed_def
      c_div_long_def)

lemma startup_trace:
  "ni_dhcp_run_startup e s
     = s\<lparr>trace := trace s @ [Call_srandom (ni_srandom e), Call_sigaction 15, Call_sigaction 2,
                              Call_socket_activate]\<rparr>"
  by (simp add: ni_dhcp_run_startup_def emit_def)

lemma deliver_effect:
  "trace (deliver sigs s) = trace s @ map (\<lambda>sig. Ev_signal (signum sig)) sigs
   \<and> ni_dhcp_active (deliver sigs s) = ni_dhcp_active s
   \<and> ni_dhcp_stop (deliver sigs s) = (if sigs = [] then ni_dhcp_stop s else signum (last sigs))"
  unfolding deliver_def
  by (induction sigs arbitrary: s) (simp_all add: catch_fatal_signals_def)

lemma send_event_effect:
  "ni_dhcp_active (ni_dhcp_send_device_event X i s) = ni_dhcp_active s
   \<and> ni_dhcp_stop (ni_dhcp_send_device_event X i s) = ni_dhcp_stop s
   \<and> (\<exists>ws. trace (ni_dhcp_send_device_event X i s) = trace s @ map Call_write ws)"
proof (cases "dhcp_device_xml X (dev_at s i)")
  case None
  then have "ni_dhcp_send_device_event X i s = s"
    by (simp add: ni_dhcp_send_device_event_def)
  then show ?thesis
    by (intro conjI exI [of _ "[]"]) simp_all
next
  case (Some n)
  let ?w = "c_strlen_bytes (fmemopen_w 65536 (event_text X (dev_at s i) n))"
  from Some have "ni_dhcp_send_device_event X i s = emit (Call_write ?w) s"
    by (simp add: ni_dhcp_send_device_event_def)
  then show ?thesis
    by (intro conjI exI [of _ "[?w]"]) simp_all
qed

lemma drain_changed_trace:
  "\<exists>cs. trace (drain_changed X s) = trace s @ cs @ [Call_device_get_changed None]
        \<and> (\<forall>c\<in>set cs. quiet_call c)"
proof (induction X s rule: drain_changed.induct)
  case (1 X s)
  show ?case
  proof (cases "find_changed (ni_dhcp_active s)")
    case None
    then have "trace (drain_changed X s) = trace s @ [] @ [Call_device_get_changed None]"
      by (subst drain_changed.simps) (simp add: ni_dhcp_device_get_changed_def)
    then show ?thesis by (intro exI [of _ "[]"]) simp
  next
    case (Some i)
    let ?s1 = "emit (Call_device_get_changed (Some i))
             (dev_update i (\<lambda>d. d\<lparr>dev_notify := False\<rparr>) s)"
    let ?s2 = "ni_dhcp_send_device_event X i ?s1"
    from Some have gc: "ni_dhcp_device_get_changed s = (Some i, ?s1)"
      by (simp add: ni_dhcp_device_get_changed_def)
    then have unf: "drain_changed X s = drain_changed X ?s2"
      by (subst drain_changed.simps) simp
    from "1.IH" [OF gc [symmetric] refl refl]
    obtain cs where cs: "trace (drain_changed X ?s2) = trace ?s2 @ cs @ [Call_device_get_changed None]"
      "\<forall>c\<in>set cs. quiet_call c"
      by blast
    from send_event_effect [of X i ?s1] obtain ws where
      ws: "trace ?s2 = trace ?s1 @ map Call_write ws" by blast
    have "trace (drain_changed X s)
        = trace s @ (Call_device_get_changed (Some i) # map Call_write ws @ cs)
            @ [Call_device_get_changed None]"
      unfolding unf cs(1) ws by simp
    moreover have "\<forall>c\<in>set (Call_device_get_changed (Some i) # map Call_write ws @ cs). quiet_call c"
      using cs(2) by auto
    ultimately show ?thesis by blast
  qed
qed


lemma quiet_counts:
  assumes "\<forall>c\<in>set cs. quiet_call c"
  shows "count_list cs Call_socket_wait = 0"
    and "count_list cs (Ev_read_stop v) = 0"
    and "count_list cs Call_fsm_check_timeout = 0"
    and "count_list cs (Call_device_get_changed None) = 0"
    and "filter is_read_stop cs = []"
    and "filter is_srandom cs = []"
proof -
  have "\<not> quiet_call c \<Longrightarrow> c \<notin> set cs" for c
    using assms by blast
  then show "count_list cs Call_socket_wait = 0"
    and "count_list cs (Ev_read_stop v) = 0"
    and "count_list cs Call_fsm_check_timeout = 0"
    and "count_list cs (Call_device_get_changed None) = 0"
    by simp_all
  have "quiet_call c \<Longrightarrow> \<not> is_read_stop c \<and> \<not> is_srandom c" for c
    by (cases c rule: quiet_call.cases) simp_all
  with assms show "filter is_read_stop cs = []" and "filter is_srandom cs = []"
    by (simp_all add: filter_empty_conv)
qed

lemma wait_trace:
  "fst (ni_socket_wait p s) = wait_ret p
   \<and> (\<exists>cs. trace (snd (ni_socket_wait p s)) = trace s @ Call_socket_wait # cs
          \<and> (\<forall>c\<in>set cs. quiet_call c))"
  by (simp add: ni_socket_wait_def Let_def deliver_effect)

lemma sweep_and_notify_trace:
  "\<exists>cs1 cs2. trace (sweep_and_notify X p s)
       = trace s @ Call_fsm_check_timeout # cs1 @ Call_device_get_changed None # cs2
     \<and> (\<forall>c\<in>set cs1. quiet_call c) \<and> (\<forall>c\<in>set cs2. quiet_call c)"
proof -
  let ?s1 = "ni_dhcp_fsm_check_timeout p s"
  have t1: "trace ?s1 = trace s @ Call_fsm_check_timeout
      # map (\<lambda>sig. Ev_signal (signum sig)) (sig_sweep p)"
    by (simp add: ni_dhcp_fsm_check_timeout_def Let_def deliver_effect)
  from drain_changed_trace [of X ?s1] obtain cs where
    cs: "trace (drain_changed X ?s1) = trace ?s1 @ cs @ [Call_device_get_changed None]"
      "\<forall>c\<in>set cs. quiet_call c"
    by blast
  have "trace (sweep_and_notify X p s)
      = trace s @ Call_fsm_check_timeout
        # (map (\<lambda>sig. Ev_signal (signum sig)) (sig_sweep p) @ cs)
        @ Call_device_get_changed None # map (\<lambda>sig. Ev_signal (signum sig)) (sig_drain p)"
    by (simp add: sweep_and_notify_def Let_def deliver_effect cs(1) t1)
  moreover have "\<forall>c\<in>set (map (\<lambda>sig. Ev_signal (signum sig)) (sig_sweep p) @ cs). quiet_call c"
    using cs(2) by auto
  moreover have "\<forall>c\<in>set (map (\<lambda>sig. Ev_signal (signum sig)) (sig_drain p)). quiet_call c"
    by simp
  ultimately show ?thesis by blast
qed

lemma event_loop_calls:
  "\<exists>cs. trace (snd (event_loop X ps s)) = trace s @ cs
     \<and> count_list cs Call_socket_wait
         = length (filter is_read_stop cs)
           + (if fst (event_loop X ps s) = Loop_fatal then 1 else 0)
     \<and> length (filter is_read_stop cs)
         = count_list cs (Ev_read_stop 0)
           + (if fst (event_loop X ps s) = Loop_break then 1 else 0)
     \<and> count_list cs Call_fsm_check_timeout = count_list cs (Ev_read_stop 0)
     \<and> count_list cs (Call_device_get_changed None) = count_list cs Call_fsm_check_timeout
     \<and> (fst (event_loop X ps s) = Loop_break \<longrightarrow>
          cs \<noteq> [] \<and> (\<exists>v. v \<noteq> 0 \<and> last cs = Ev_read_stop v))
     \<and> filter is_srandom cs = []"
proof (induction ps arbitrary: s)
  case Nil
  show ?case by (intro exI [of _ "[]"]) simp
next
  case (Cons p ps)
  let ?s1 = "snd (ni_socket_wait p (emit Call_fsm_get_timeout s))"
  from wait_trace [of p "emit Call_fsm_get_timeout s"] obtain cw where
    rv: "fst (ni_socket_wait p (emit Call_fsm_get_timeout s)) = wait_ret p"
    and cw: "trace ?s1 = trace s @ Call_fsm_get_timeout # Call_socket_wait # cw"
      "\<forall>c\<in>set cw. quiet_call c"
    by auto
  note qw = quiet_counts [OF cw(2)]
  show ?case
  proof (cases "wait_ret p < 0")
    case True
    with rv have r: "event_loop X (p # ps) s = (Loop_fatal, emit Call_ni_fatal ?s1)"
      by (simp add: case_prod_beta)
    show ?thesis
      unfolding r
      by (intro exI [of _ "Call_fsm_get_timeout # Call_socket_wait # cw @ [Call_ni_fatal]"])
        (simp add: cw(1) qw)
  next
    case False
    note nofatal = this
    let ?v = "ni_dhcp_stop ?s1"
    let ?s2 = "emit (Ev_read_stop ?v) ?s1"
    show ?thesis
    proof (cases "?v = 0")
      case False
      with nofatal rv have r: "event_loop X (p # ps) s = (Loop_break, ?s2)"
        by (simp add: Let_def case_prod_beta)
      show ?thesis
        unfolding r using False
        by (intro exI [of _ "Call_fsm_get_timeout # Call_socket_wait # cw @ [Ev_read_stop ?v]"])
          (simp add: cw(1) qw)
    next
      case True
      let ?s3 = "sweep_and_notify X p ?s2"
      from True nofatal rv have r: "event_loop X (p # ps) s = event_loop X ps ?s3"
        by (simp add: Let_def case_prod_beta)
      from sweep_and_notify_trace [of X p ?s2] obtain cs1 cs2 where
        sn: "trace ?s3 = trace ?s2 @ Call_fsm_check_timeout # cs1 @ Call_device_get_changed None # cs2"
          "\<forall>c\<in>set cs1. quiet_call c" "\<forall>c\<in>set cs2. quiet_call c"
        by blast
      note q1 = quiet_counts [OF sn(2)] and q2 = quiet_counts [OF sn(3)]
      let ?pass = "Call_fsm_get_timeout # Call_socket_wait # cw @ Ev_read_stop 0
          # Call_fsm_check_timeout # cs1 @ Call_device_get_changed None # cs2"
      have t3: "trace ?s3 = trace s @ ?pass"
        using True sn(1) cw(1) by simp
      from Cons.IH [of ?s3] obtain cs where
        ih: "trace (snd (event_loop X ps ?s3)) = trace ?s3 @ cs"
          "count_list cs Call_socket_wait
             = length (filter is_read_stop cs)
               + (if fst (event_loop X ps ?s3) = Loop_fatal then 1 else 0)"
          "length (filter is_read_stop cs)
             = count_list cs (Ev_read_stop 0)
               + (if fst (event_loop X ps ?s3) = Loop_break then 1 else 0)"
          "count_list cs Call_fsm_check_timeout = count_list cs (Ev_read_stop 0)"
          "count_list cs (Call_device_get_changed None) = count_list cs Call_fsm_check_timeout"
          "fst (event_loop X ps ?s3) = Loop_break \<longrightarrow>
             cs \<noteq> [] \<and> (\<exists>v. v \<noteq> 0 \<and> last cs = Ev_read_stop v)"
          "filter is_srandom cs = []"
        by blast
      show ?thesis
        unfolding r
      proof (intro exI [of _ "?pass @ cs"] conjI)
        show "trace (snd (event_loop X ps ?s3)) = trace s @ ?pass @ cs"
          by (simp add: ih(1) t3)
        show "count_list (?pass @ cs) Call_socket_wait
            = length (filter is_read_stop (?pass @ cs))
              + (if fst (event_loop X ps ?s3) = Loop_fatal then 1 else 0)"
          by (simp add: qw q1 q2 ih(2))
        show "length (filter is_read_stop (?pass @ cs))
            = count_list (?pass @ cs) (Ev_read_stop 0)
              + (if fst (event_loop X ps ?s3) = Loop_break then 1 else 0)"
          by (simp add: qw q1 q2 ih(3))
        show "count_list (?pass @ cs) Call_fsm_check_timeout
            = count_list (?pass @ cs) (Ev_read_stop 0)"
          by (simp add: qw q1 q2 ih(4))
        show "count_list (?pass @ cs) (Call_device_get_changed None)
            = count_list (?pass @ cs) Call_fsm_check_timeout"
          by (simp add: qw q1 q2 ih(5))
        show "fst (event_loop X ps ?s3) = Loop_break \<longrightarrow>
            ?pass @ cs \<noteq> [] \<and> (\<exists>v. v \<noteq> 0 \<and> last (?pass @ cs) = Ev_read_stop v)"
          using ih(6) by simp
        show "filter is_srandom (?pass @ cs) = []"
          by (simp add: qw q1 q2 ih(7))
      qed
    qed
  qed
qed

lemma c_div_long_nonneg:
  "0 \<le> sint a \<Longrightarrow> c_div_long a 1024 = a div 1024"
proof -
  assume nn: "0 \<le> sint a"
  have "sint a < 2 ^ 64"
    using sint_less [of a] by simp
  with nn have "take_bit 64 (sint a) = sint a"
    by (simp add: take_bit_int_eq_self)
  then have su: "sint a = uint a"
    by (simp add: uint_sint)
  have "sint a sdiv sint (1024 :: 64 word) = uint a div uint (1024 :: 64 word)"
    unfolding su by (simp add: signed_divide_int_def sgn_if)
  then show ?thesis
    by (simp add: c_div_long_def word_div_def)
qed

lemma shutdown_no_srandom:
  "\<exists>cs. trace (shutdown X s) = trace s @ cs \<and> filter is_srandom cs = []"
proof -
  let ?cs = "concat (map (\<lambda>i. (if release_due (ni_dhcp_active s ! i) then [Call_fsm_release i] else [])
                           @ [Call_device_stop i])
                   [0..<length (ni_dhcp_active s)])"
  from shutdown_fold [of "length (ni_dhcp_active s)" s X]
  have tr: "trace (shutdown X s) = trace s @ (?cs @ [Call_exit 0])"
    by (simp add: shutdown_def)
  have "filter is_srandom (concat (map (\<lambda>i. (if release_due (ds ! i) then [Call_fsm_release i] else [])
                           @ [Call_device_stop i]) [0..<k])) = []" for ds k
    by (induction k) simp_all
  then have "filter is_srandom (?cs @ [Call_exit 0]) = []"
    by simp
  with tr show ?thesis by blast
qed

lemma run_trace:
  "\<exists>cs. trace (snd (ni_dhcp_run X e ps s)) = trace s @ Call_srandom (ni_srandom e) # cs
     \<and> filter is_srandom cs = []"
proof -
  let ?s0 = "ni_dhcp_run_startup e s"
  let ?l = "event_loop X ps ?s0"
  from event_loop_calls [of X ps ?s0] obtain cs where
    cs: "trace (snd ?l) = trace ?s0 @ cs" "filter is_srandom cs = []"
    by blast
  have t0: "trace ?s0 = trace s @ [Call_srandom (ni_srandom e), Call_sigaction 15,
      Call_sigaction 2, Call_socket_activate]"
    by (simp add: startup_trace)
  show ?thesis
  proof (cases "fst ?l")
    case Loop_break
    then have r: "snd (ni_dhcp_run X e ps s) = shutdown X (snd ?l)"
      by (simp add: ni_dhcp_run_def Let_def case_prod_beta)
    from shutdown_no_srandom [of X "snd ?l"] obtain cs' where
      cs': "trace (shutdown X (snd ?l)) = trace (snd ?l) @ cs'" "filter is_srandom cs' = []"
      by blast
    show ?thesis
      unfolding r
      by (intro exI [of _ "[Call_sigaction 15, Call_sigaction 2, Call_socket_activate] @ cs @ cs'"])
        (simp add: cs cs' t0)
  next
    case Loop_fatal
    then have r: "snd (ni_dhcp_run X e ps s) = snd ?l"
      by (simp add: ni_dhcp_run_def Let_def case_prod_beta)
    show ?thesis
      unfolding r
      by (intro exI [of _ "[Call_sigaction 15, Call_sigaction 2, Call_socket_activate] @ cs"])
        (simp add: cs t0)
  next
    case Loop_running
    then have r: "snd (ni_dhcp_run X e ps s) = snd ?l"
      by (simp add: ni_dhcp_run_def Let_def case_prod_beta)
    show ?thesis
      unfolding r
      by (intro exI [of _ "[Call_sigaction 15, Call_sigaction 2, Call_socket_activate] @ cs"])
        (simp add: cs t0)
  qed
qed

lemma drain_eth0:
  "drain_changed sample_externals
     \<lparr>ni_dhcp_active = [eth0_bound\<lparr>dev_notify := True\<rparr>], ni_dhcp_stop = v, trace = tr\<rparr>
   = \<lparr>ni_dhcp_active = [eth0_bound], ni_dhcp_stop = v,
      trace = tr @ [Call_device_get_changed (Some 0),
        Call_write (''POST /system/event/eth0'' @ [CHR 0x0A, CHR 0x0A]
                     @ ''<lease><state>granted</state></lease>''),
        Call_device_get_changed None]\<rparr>"
  apply (subst drain_changed.simps)
  apply (simp add: ni_dhcp_device_get_changed_def eth0_bound_def emit_def dev_update_def)
  apply (subst drain_changed.simps)
  apply (simp add: ni_dhcp_device_get_changed_def ni_dhcp_send_device_event_def dev_at_def
      dhcp_device_xml_def device_lease_def sample_externals_def render_status_def bound_lease_def
      AF_INET_def emit_def event_text_def fmemopen_w_def c_strlen_bytes_def)
  done

lemma loop_signal_in_sweep:
  "event_loop sample_externals [pass_signal_in_sweep, pass_quiet] (state0 [eth0_bound])
   = (Loop_break,
      \<lparr>ni_dhcp_active = [eth0_bound], ni_dhcp_stop = 15,
       trace = [Call_fsm_get_timeout, Call_socket_wait, Ev_read_stop 0, Call_fsm_check_timeout,
         Ev_signal 15, Call_device_get_changed (Some 0),
         Call_write (''POST /system/event/eth0'' @ [CHR 0x0A, CHR 0x0A]
                      @ ''<lease><state>granted</state></lease>''),
         Call_device_get_changed None,
         Call_fsm_get_timeout, Call_socket_wait, Ev_read_stop 15]\<rparr>)"
  by (simp add: state0_def pass_signal_in_sweep_def pass_quiet_def ni_socket_wait_def
      sweep_and_notify_def ni_dhcp_fsm_check_timeout_def deliver_def catch_fatal_signals_def
      emit_def Let_def drain_eth0)

lemma loop_signal_in_wait:
  "event_loop sample_externals [pass_signal_in_wait] (state0 [eth0_bound\<lparr>dev_notify := True\<rparr>])
   = (Loop_break,
      \<lparr>ni_dhcp_active = [eth0_bound\<lparr>dev_notify := True\<rparr>], ni_dhcp_stop = 15,
       trace = [Call_fsm_get_timeout, Call_socket_wait, Ev_signal 15, Ev_read_stop 15]\<rparr>)"
  by (simp add: state0_def pass_signal_in_wait_def ni_socket_wait_def deliver_def
      catch_fatal_signals_def emit_def Let_def)

lemma signum_nonzero: "signum sig \<noteq> 0"
  by (cases sig) simp_all

lemma recorded_simps:
  "recorded [] v = v"
  "sigs \<noteq> [] \<Longrightarrow> recorded sigs v \<noteq> 0"
  "v \<noteq> 0 \<Longrightarrow> recorded sigs v \<noteq> 0"
  "recorded sigs' (recorded sigs v) = recorded (sigs @ sigs') v"
  by (simp_all add: recorded_def signum_nonzero)

lemma deliver_recorded:
  "trace (deliver sigs s) = trace s @ sig_events sigs"
  "ni_dhcp_stop (deliver sigs s) = recorded sigs (ni_dhcp_stop s)"
  "ni_dhcp_active (deliver sigs s) = ni_dhcp_active s"
  using deliver_effect [of sigs s] by (simp_all add: sig_events_def recorded_def)

lemma wait_exact:
  "fst (ni_socket_wait p s) = wait_ret p"
  "trace (snd (ni_socket_wait p s)) = trace s @ Call_socket_wait # sig_events (sig_wait p)"
  "ni_dhcp_stop (snd (ni_socket_wait p s)) = recorded (sig_wait p) (ni_dhcp_stop s)"
  by (simp_all add: ni_socket_wait_def Let_def deliver_recorded)

lemma check_timeout_exact:
  "trace (ni_dhcp_fsm_check_timeout p s)
     = trace s @ Call_fsm_check_timeout # sig_events (sig_sweep p)"
  "ni_dhcp_stop (ni_dhcp_fsm_check_timeout p s) = recorded (sig_sweep p) (ni_dhcp_stop s)"
  by (simp_all add: ni_dhcp_fsm_check_timeout_def Let_def deliver_recorded)

lemma drain_changed_exact:
  "ni_dhcp_stop (drain_changed X s) = ni_dhcp_stop s
   \<and> (\<exists>cs. trace (drain_changed X s) = trace s @ cs @ [Call_device_get_changed None]
          \<and> (\<forall>c\<in>set cs. notify_call c))"
proof (induction X s rule: drain_changed.induct)
  case (1 X s)
  show ?case
  proof (cases "find_changed (ni_dhcp_active s)")
    case None
    then have "drain_changed X s = emit (Call_device_get_changed None) s"
      by (subst drain_changed.simps) (simp add: ni_dhcp_device_get_changed_def)
    then show ?thesis by (intro conjI exI [of _ "[]"]) simp_all
  next
    case (Some i)
    let ?s1 = "emit (Call_device_get_changed (Some i))
             (dev_update i (\<lambda>d. d\<lparr>dev_notify := False\<rparr>) s)"
    let ?s2 = "ni_dhcp_send_device_event X i ?s1"
    from Some have gc: "ni_dhcp_device_get_changed s = (Some i, ?s1)"
      by (simp add: ni_dhcp_device_get_changed_def)
    then have unf: "drain_changed X s = drain_changed X ?s2"
      by (subst drain_changed.simps) simp
    from "1.IH" [OF gc [symmetric] refl refl]
    obtain cs where st: "ni_dhcp_stop (drain_changed X ?s2) = ni_dhcp_stop ?s2"
      and cs: "trace (drain_changed X ?s2) = trace ?s2 @ cs @ [Call_device_get_changed None]"
      "\<forall>c\<in>set cs. notify_call c"
      by blast
    from send_event_effect [of X i ?s1] obtain ws where
      ws: "trace ?s2 = trace ?s1 @ map Call_write ws"
      and st2: "ni_dhcp_stop ?s2 = ni_dhcp_stop ?s1"
      by blast
    have a: "ni_dhcp_stop (drain_changed X s) = ni_dhcp_stop s"
      unfolding unf st st2 by simp
    have b: "trace (drain_changed X s)
        = trace s @ (Call_device_get_changed (Some i) # map Call_write ws @ cs)
            @ [Call_device_get_changed None]"
      unfolding unf cs(1) ws by simp
    have c: "\<forall>c\<in>set (Call_device_get_changed (Some i) # map Call_write ws @ cs). notify_call c"
      using cs(2) by auto
    from a b c show ?thesis by blast
  qed
qed

lemma sweep_and_notify_exact:
  "ni_dhcp_stop (sweep_and_notify X p s) = recorded (sig_sweep p @ sig_drain p) (ni_dhcp_stop s)
   \<and> (\<exists>cs. trace (sweep_and_notify X p s)
          = trace s @ Call_fsm_check_timeout # sig_events (sig_sweep p) @ cs
              @ Call_device_get_changed None # sig_events (sig_drain p)
          \<and> (\<forall>c\<in>set cs. notify_call c))"
proof -
  let ?s1 = "ni_dhcp_fsm_check_timeout p s"
  from drain_changed_exact [of X ?s1] obtain cs where
    st: "ni_dhcp_stop (drain_changed X ?s1) = ni_dhcp_stop ?s1"
    and cs: "trace (drain_changed X ?s1) = trace ?s1 @ cs @ [Call_device_get_changed None]"
      "\<forall>c\<in>set cs. notify_call c"
    by blast
  have a: "ni_dhcp_stop (sweep_and_notify X p s)
      = recorded (sig_sweep p @ sig_drain p) (ni_dhcp_stop s)"
    by (simp add: sweep_and_notify_def Let_def deliver_recorded st check_timeout_exact
        recorded_simps(4))
  have b: "trace (sweep_and_notify X p s)
          = trace s @ Call_fsm_check_timeout # sig_events (sig_sweep p) @ cs
              @ Call_device_get_changed None # sig_events (sig_drain p)"
    by (simp add: sweep_and_notify_def Let_def deliver_recorded cs(1) check_timeout_exact)
  from a b cs(2) show ?thesis by blast
qed

lemma pass_fatal:
  "wait_ret p < 0 \<Longrightarrow>
   fst (event_loop X (p # ps) s) = Loop_fatal
   \<and> trace (snd (event_loop X (p # ps) s))
       = trace s @ [Call_fsm_get_timeout, Call_socket_wait] @ sig_events (sig_wait p)
           @ [Call_ni_fatal]"
  by (simp add: case_prod_beta wait_exact)

lemma pass_break:
  "\<not> wait_ret p < 0 \<Longrightarrow> recorded (sig_wait p) (ni_dhcp_stop s) \<noteq> 0 \<Longrightarrow>
   fst (event_loop X (p # ps) s) = Loop_break
   \<and> trace (snd (event_loop X (p # ps) s))
       = trace s @ [Call_fsm_get_timeout, Call_socket_wait] @ sig_events (sig_wait p)
           @ [Ev_read_stop (recorded (sig_wait p) (ni_dhcp_stop s))]
   \<and> ni_dhcp_stop (snd (event_loop X (p # ps) s)) = recorded (sig_wait p) (ni_dhcp_stop s)"
  by (simp add: case_prod_beta Let_def wait_exact)

lemma pass_continue:
  assumes "\<not> wait_ret p < 0" and "recorded (sig_wait p) (ni_dhcp_stop s) = 0"
  shows "\<exists>s2 cs. event_loop X (p # ps) s = event_loop X ps s2
     \<and> trace s2
         = trace s @ [Call_fsm_get_timeout, Call_socket_wait] @ sig_events (sig_wait p)
             @ [Ev_read_stop 0, Call_fsm_check_timeout] @ sig_events (sig_sweep p)
             @ cs @ [Call_device_get_changed None] @ sig_events (sig_drain p)
     \<and> (\<forall>c\<in>set cs. notify_call c)
     \<and> ni_dhcp_stop s2 = recorded (sig_sweep p @ sig_drain p) 0"
proof -
  let ?s1 = "snd (ni_socket_wait p (emit Call_fsm_get_timeout s))"
  let ?s2 = "sweep_and_notify X p (emit (Ev_read_stop 0) ?s1)"
  from assms have z: "ni_dhcp_stop ?s1 = 0"
    by (simp add: wait_exact)
  with assms have r: "event_loop X (p # ps) s = event_loop X ps ?s2"
    by (simp add: case_prod_beta Let_def wait_exact)
  from sweep_and_notify_exact [of X p "emit (Ev_read_stop 0) ?s1"] z obtain cs where
    st: "ni_dhcp_stop ?s2 = recorded (sig_sweep p @ sig_drain p) 0"
    and cs: "trace ?s2 = trace (emit (Ev_read_stop 0) ?s1)
          @ Call_fsm_check_timeout # sig_events (sig_sweep p) @ cs
              @ Call_device_get_changed None # sig_events (sig_drain p)"
      "\<forall>c\<in>set cs. notify_call c"
    by auto
  from cs(1) have "trace ?s2
         = trace s @ [Call_fsm_get_timeout, Call_socket_wait] @ sig_events (sig_wait p)
             @ [Ev_read_stop 0, Call_fsm_check_timeout] @ sig_events (sig_sweep p)
             @ cs @ [Call_device_get_changed None] @ sig_events (sig_drain p)"
    by (simp add: wait_exact)
  with r st cs(2) show ?thesis by blast
qed

subsection \<open>The seed\<close>

text \<open>
  C9. The seed that \<^verbatim>\<open>ni_srandom\<close> takes from the entropy device is zero exactly when the
  device cannot be opened, the read returns fewer than 4, or the four bytes read are
  zero. Then the generator is seeded with the 32-bit value
  \<open>(usec XOR usec / 1024) XOR sec XOR pid\<close>, where the division is the division of C on
  \<^verbatim>\<open>long\<close> (for a microsecond count that is not negative, the plain quotient); for
  500000 microseconds, 1000000000 seconds and process 42 this is
  \<open>(500000 XOR 500000 div 1024) XOR 1000000000 XOR 42\<close>. In every run of \<^verbatim>\<open>ni_dhcp_run\<close>
  the call of \<^verbatim>\<open>srandom\<close> is the first call made, before the loop, and no other call of
  \<^verbatim>\<open>srandom\<close> follows.
\<close>

theorem seed_fallback_once_before_loop:
  "(entropy_seed e = 0
      \<longleftrightarrow> \<not> urandom_open_ok e \<or> urandom_read_ret e < 4 \<or> urandom_read_seed e = 0)
   \<and> (entropy_seed e = 0 \<longrightarrow>
        ni_srandom e
          = ucast (tv_usec e XOR c_div_long (tv_usec e) 1024) XOR ucast (tv_sec e) XOR pid e)
   \<and> (0 \<le> sint (tv_usec e) \<longrightarrow> c_div_long (tv_usec e) 1024 = tv_usec e div 1024)
   \<and> (entropy_seed e = 0 \<and> tv_usec e = 500000 \<and> tv_sec e = 1000000000 \<and> pid e = 42 \<longrightarrow>
        ni_srandom e = (500000 XOR (500000 div 1024)) XOR 1000000000 XOR 42)
   \<and> (\<exists>cs. trace (snd (ni_dhcp_run X e ps s)) = trace s @ Call_srandom (ni_srandom e) # cs
          \<and> filter is_srandom cs = [])"
proof -
  have a: "entropy_seed e = 0
      \<longleftrightarrow> \<not> urandom_open_ok e \<or> urandom_read_ret e < 4 \<or> urandom_read_seed e = 0"
    by (simp add: entropy_seed_def)
  have b: "entropy_seed e = 0 \<Longrightarrow> ni_srandom e
          = ucast (tv_usec e XOR c_div_long (tv_usec e) 1024) XOR ucast (tv_sec e) XOR pid e"
    by (simp add: ni_srandom_def fallback_seed_eq)
  have c: "0 \<le> sint (tv_usec e) \<Longrightarrow> c_div_long (tv_usec e) 1024 = tv_usec e div 1024"
    by (rule c_div_long_nonneg)
  have d: "ni_srandom e = (500000 XOR (500000 div 1024)) XOR 1000000000 XOR 42"
    if "entropy_seed e = 0" "tv_usec e = 500000" "tv_sec e = 1000000000" "pid e = 42"
    using that by (simp add: ni_srandom_def fallback_seed_def c_div_long_def)
  from a b c d run_trace [of X e ps s] show ?thesis
    by blast
qed

theorem seed_fallback_once_before_loop_witness:
  "entropy_seed failed_open_env = 0
   \<and> \<not> urandom_open_ok failed_open_env
   \<and> 0 \<le> sint (tv_usec failed_open_env)
   \<and> tv_usec failed_open_env = 500000 \<and> tv_sec failed_open_env = 1000000000
   \<and> pid failed_open_env = 42
   \<and> c_div_long (tv_usec failed_open_env) 1024 = 488
   \<and> ni_srandom failed_open_env = (500000 XOR (500000 div 1024)) XOR 1000000000 XOR 42
   \<and> ni_srandom failed_open_env = 1000172258
   \<and> (\<exists>cs. trace (snd (ni_dhcp_run sample_externals failed_open_env [pass_signal_in_wait]
                         (state0 [eth0_bound])))
              = Call_srandom 1000172258 # cs
          \<and> filter is_srandom cs = [])"
proof -
  have f: "tv_usec failed_open_env = 500000" "tv_sec failed_open_env = 1000000000"
      "pid failed_open_env = 42" "\<not> urandom_open_ok failed_open_env"
    by (simp_all add: failed_open_env_def)
  have nn: "0 \<le> sint (tv_usec failed_open_env)"
    unfolding f by simp
  have t: "trace (state0 [eth0_bound]) = []"
    by (simp add: state0_def)
  note inst = seed_fallback_once_before_loop [of failed_open_env sample_externals
      "[pass_signal_in_wait]" "state0 [eth0_bound]"]
  from inst f have z: "entropy_seed failed_open_env = 0"
    by blast
  from inst z f have v: "ni_srandom failed_open_env
      = (500000 XOR (500000 div 1024)) XOR 1000000000 XOR 42"
    by blast
  then have v': "ni_srandom failed_open_env = 1000172258"
    by simp
  from inst nn have "c_div_long (tv_usec failed_open_env) 1024 = tv_usec failed_open_env div 1024"
    by blast
  then have q: "c_div_long (tv_usec failed_open_env) 1024 = 488"
    unfolding f by simp
  from inst obtain cs where cs:
    "trace (snd (ni_dhcp_run sample_externals failed_open_env [pass_signal_in_wait]
        (state0 [eth0_bound])))
       = trace (state0 [eth0_bound]) @ Call_srandom (ni_srandom failed_open_env) # cs"
    "filter is_srandom cs = []"
    by blast
  from cs(1) have "trace (snd (ni_dhcp_run sample_externals failed_open_env
        [pass_signal_in_wait] (state0 [eth0_bound]))) = Call_srandom 1000172258 # cs"
    unfolding t v' by simp
  with cs(2) have e: "\<exists>cs. trace (snd (ni_dhcp_run sample_externals failed_open_env
        [pass_signal_in_wait] (state0 [eth0_bound])))
              = Call_srandom 1000172258 # cs
          \<and> filter is_srandom cs = []"
    by blast
  from z f(4) nn f(1) f(2) f(3) q v v' e show ?thesis
    by (intro conjI)
qed

text \<open>
  C10. When the entropy device opens but the read returns fewer than 4 (bytes, or -1),
  what the read stored in the seed is thrown away: the seed is put back to zero and the
  generator is seeded with the time/pid fallback, the same value as when the device
  cannot be opened.
\<close>

theorem partial_read_uses_fallback:
  "urandom_open_ok e \<Longrightarrow> urandom_read_ret e < 4 \<Longrightarrow>
     entropy_seed e = 0 \<and> ni_srandom e = fallback_seed e
     \<and> ni_srandom e = ni_srandom (e\<lparr>urandom_open_ok := False\<rparr>)"
  by (simp add: ni_srandom_def entropy_seed_def fallback_seed_def Let_def)

theorem partial_read_uses_fallback_witness:
  "urandom_open_ok partial_read_env \<and> urandom_read_ret partial_read_env < 4
   \<and> urandom_read_seed partial_read_env \<noteq> 0
   \<and> entropy_seed partial_read_env = 0
   \<and> ni_srandom partial_read_env = fallback_seed partial_read_env
   \<and> ni_srandom partial_read_env = ni_srandom (partial_read_env\<lparr>urandom_open_ok := False\<rparr>)"
proof -
  have a: "urandom_open_ok partial_read_env" and b: "urandom_read_ret partial_read_env < 4"
    and c: "urandom_read_seed partial_read_env \<noteq> 0"
    by (simp_all add: partial_read_env_def)
  from partial_read_uses_fallback [OF a b] a b c show ?thesis
    by blast
qed

subsection \<open>The renderer\<close>

text \<open>
  C4. The lease that \<^verbatim>\<open>dhcp_device_xml\<close> hands to the XML codec: for a device marked
  failed it has family IPv4, kind DHCP, status FAILED and no lease fields, whatever lease
  the device holds; for a device that is not failed and holds a lease it is that lease,
  unchanged; otherwise it is the placeholder with status RELEASED, family IPv4, kind DHCP.
\<close>

theorem dhcp_device_xml_policy:
  "dhcp_device_xml X dev = ext_xml_from_lease X (device_lease dev)
   \<and> (dev_failed dev \<longrightarrow>
        lease_family (device_lease dev) = AF_INET
        \<and> lease_type (device_lease dev) = NI_ADDRCONF_DHCP
        \<and> lease_state (device_lease dev) = NI_ADDRCONF_STATE_FAILED
        \<and> lease_fields (device_lease dev) = [])
   \<and> (\<not> dev_failed dev \<longrightarrow> (\<forall>l. dev_lease dev = Some l \<longrightarrow> device_lease dev = l))
   \<and> (\<not> dev_failed dev \<and> dev_lease dev = None \<longrightarrow>
        lease_family (device_lease dev) = AF_INET
        \<and> lease_type (device_lease dev) = NI_ADDRCONF_DHCP
        \<and> lease_state (device_lease dev) = NI_ADDRCONF_STATE_RELEASED
        \<and> lease_fields (device_lease dev) = [])"
  by (simp add: dhcp_device_xml_def device_lease_def dummy_lease_def)

theorem dhcp_device_xml_policy_witness:
  "dev_failed (eth0_bound\<lparr>dev_failed := True\<rparr>)
   \<and> dev_lease (eth0_bound\<lparr>dev_failed := True\<rparr>) = Some bound_lease
   \<and> lease_state (device_lease (eth0_bound\<lparr>dev_failed := True\<rparr>)) = NI_ADDRCONF_STATE_FAILED
   \<and> lease_family (device_lease (eth0_bound\<lparr>dev_failed := True\<rparr>)) = AF_INET
   \<and> lease_type (device_lease (eth0_bound\<lparr>dev_failed := True\<rparr>)) = NI_ADDRCONF_DHCP
   \<and> dhcp_device_xml sample_externals (eth0_bound\<lparr>dev_failed := True\<rparr>)
       = Some ''<lease><state>failed</state></lease>''
   \<and> \<not> dev_failed eth0_bound \<and> dev_lease eth0_bound = Some bound_lease
   \<and> device_lease eth0_bound = bound_lease
   \<and> \<not> dev_failed eth1_idle \<and> dev_lease eth1_idle = None
   \<and> lease_state (device_lease eth1_idle) = NI_ADDRCONF_STATE_RELEASED
   \<and> lease_family (device_lease eth1_idle) = AF_INET
   \<and> lease_type (device_lease eth1_idle) = NI_ADDRCONF_DHCP"
proof -
  have f: "dev_failed (eth0_bound\<lparr>dev_failed := True\<rparr>)"
      "dev_lease (eth0_bound\<lparr>dev_failed := True\<rparr>) = Some bound_lease"
    and b: "\<not> dev_failed eth0_bound" "dev_lease eth0_bound = Some bound_lease"
    and i: "\<not> dev_failed eth1_idle" "dev_lease eth1_idle = None"
    by (simp_all add: eth0_bound_def eth1_idle_def)
  have r: "ext_xml_from_lease sample_externals
        (dummy_lease\<lparr>lease_state := NI_ADDRCONF_STATE_FAILED\<rparr>)
      = Some ''<lease><state>failed</state></lease>''"
    by (simp add: sample_externals_def render_status_def dummy_lease_def)
  have d: "device_lease (eth0_bound\<lparr>dev_failed := True\<rparr>)
      = dummy_lease\<lparr>lease_state := NI_ADDRCONF_STATE_FAILED\<rparr>"
    by (simp add: device_lease_def)
  from dhcp_device_xml_policy [of sample_externals "eth0_bound\<lparr>dev_failed := True\<rparr>"]
    dhcp_device_xml_policy [of sample_externals eth0_bound]
    dhcp_device_xml_policy [of sample_externals eth1_idle]
    f b i r d
  show ?thesis by simp
qed

subsection \<open>GET /device\<close>

text \<open>
  C5. \<^verbatim>\<open>dhcp_device_get\<close> without a name fails (return value -1, the message "need to
  specify interface": InvalidInput); with a name that no device is registered under it
  fails (-1, "interface ... not known": NotFound); in every case the process state, and
  with it the registry, is what it was, so no device is created. When the device is found
  and renders, the rendered node is the response body and the return value is 0; when
  the rendering fails the handler fails (-1, "cannot render interface information") and
  the request has no response body.
\<close>

theorem dhcp_device_get_contract:
  "dhcp_device_get X None req s = (- 1, werror req ''need to specify interface'', s)
   \<and> (ni_dhcp_device_find n s = None \<longrightarrow>
        dhcp_device_get X (Some n) req s
          = (- 1, werror req (''interface '' @ n @ '' not known''), s))
   \<and> snd (snd (dhcp_device_get X ifname req s)) = s
   \<and> (\<forall>i node. ni_dhcp_device_find n s = Some i \<and> dhcp_device_xml X (dev_at s i) = Some node \<longrightarrow>
        dhcp_device_get X (Some n) req s = (0, req\<lparr>xml_out := Some node\<rparr>, s))
   \<and> (\<forall>i. ni_dhcp_device_find n s = Some i \<and> dhcp_device_xml X (dev_at s i) = None \<longrightarrow>
        dhcp_device_get X (Some n) req s
          = (- 1, werror (req\<lparr>xml_out := None\<rparr>) ''cannot render interface information'', s)
        \<and> xml_out (fst (snd (dhcp_device_get X (Some n) req s))) = None)"
  by (auto simp: dhcp_device_get_def dhcp_device_response_def werror_def Let_def
      split: option.splits)

theorem dhcp_device_get_contract_witness:
  "ni_dhcp_device_find ''eth2'' (state0 [eth1_idle, eth0_bound]) = None
   \<and> dhcp_device_get sample_externals (Some ''eth2'') (request0 None) (state0 [eth1_idle, eth0_bound])
       = (- 1, werror (request0 None) ''interface eth2 not known'', state0 [eth1_idle, eth0_bound])
   \<and> ni_dhcp_device_find ''eth0'' (state0 [eth1_idle, eth0_bound]) = Some 1
   \<and> dhcp_device_xml sample_externals (dev_at (state0 [eth1_idle, eth0_bound]) 1)
       = Some ''<lease><state>granted</state></lease>''
   \<and> dhcp_device_get sample_externals (Some ''eth0'') (request0 None) (state0 [eth1_idle, eth0_bound])
       = (0, (request0 None)\<lparr>xml_out := Some ''<lease><state>granted</state></lease>''\<rparr>,
          state0 [eth1_idle, eth0_bound])"
proof -
  let ?s = "state0 [eth1_idle, eth0_bound]"
  have a: "ni_dhcp_device_find ''eth2'' ?s = None"
    and b: "ni_dhcp_device_find ''eth0'' ?s = Some 1"
    by (simp_all add: state0_def ni_dhcp_device_find_def eth1_idle_def eth0_bound_def)
  have c: "dhcp_device_xml sample_externals (dev_at ?s 1)
      = Some ''<lease><state>granted</state></lease>''"
    by (simp add: state0_def dev_at_def dhcp_device_xml_def device_lease_def eth0_bound_def
        sample_externals_def render_status_def bound_lease_def AF_INET_def)
  from dhcp_device_get_contract [of sample_externals "request0 None" ?s "''eth2''"] a
  have d: "dhcp_device_get sample_externals (Some ''eth2'') (request0 None) ?s
       = (- 1, werror (request0 None) ''interface eth2 not known'', ?s)"
    by simp
  from dhcp_device_get_contract [of sample_externals "request0 None" ?s "''eth0''"] b c
  have e: "dhcp_device_get sample_externals (Some ''eth0'') (request0 None) ?s
       = (0, (request0 None)\<lparr>xml_out := Some ''<lease><state>granted</state></lease>''\<rparr>, ?s)"
    by blast
  from a b c d e show ?thesis by blast
qed

subsection \<open>DELETE /interface\<close>




subsection \<open>PUT /interface\<close>

text \<open>
  C2. A PUT whose interface description has \<^verbatim>\<open>IFF_UP\<close> unset, for a name under which
  no device is registered: the lookup gives \<^verbatim>\<open>NULL\<close>, \<^verbatim>\<open>reacquire\<close> stays 0, and line
  279 writes \<^verbatim>\<open>dev->notify\<close> through the null pointer. The handler does not return.
\<close>

theorem put_down_unregistered_null_dereference:
  assumes "ext_dummy_open_ok X"
    and "ext_xml_to_all X (xml_in req) = Some ifs"
    and "ni_interface_by_name ifs n = Some ifp"
    and "if_flags ifp AND IFF_UP = 0"
    and "ni_dhcp_device_find n s = None"
  shows "dhcp_interface_put X (Some n) req s = Inl Null_dereference"
proof -
  from assms(3) have nm: "if_name ifp = n" by (rule interface_by_name_Some)
  with assms(5) have "ni_dhcp_device_find (if_name ifp) (emit Call_dummy_open s) = None"
    by (simp add: ni_dhcp_device_find_def)
  with assms(4) have "put_decide X ifp (emit Call_dummy_open s) = (None, False, emit Call_dummy_open s)"
    by (rule put_decide_down_none)
  with assms(1,2,3) show ?thesis
    by (simp add: dhcp_interface_put_def put_finish_def)
qed

theorem put_down_unregistered_null_dereference_witness:
  "ext_dummy_open_ok sample_externals
   \<and> ext_xml_to_all sample_externals (xml_in (request0 (Some ''eth0'')))
       = Some [\<lparr>if_name = ''eth0'', if_type = 1, if_flags = 0, if_settings = []\<rparr>]
   \<and> ni_interface_by_name [\<lparr>if_name = ''eth0'', if_type = 1, if_flags = 0, if_settings = []\<rparr>] ''eth0''
       = Some \<lparr>if_name = ''eth0'', if_type = 1, if_flags = 0, if_settings = []\<rparr>
   \<and> if_flags \<lparr>if_name = ''eth0'', if_type = 1, if_flags = 0, if_settings = []\<rparr> AND IFF_UP = 0
   \<and> ni_dhcp_device_find ''eth0'' (state0 []) = None
   \<and> dhcp_interface_put sample_externals (Some ''eth0'') (request0 (Some ''eth0'')) (state0 [])
       = Inl Null_dereference"
proof -
  let ?ifp = "\<lparr>if_name = ''eth0'', if_type = 1, if_flags = 0, if_settings = []\<rparr>"
  have a: "ext_dummy_open_ok sample_externals"
    by (simp add: sample_externals_def)
  have b: "ext_xml_to_all sample_externals (xml_in (request0 (Some ''eth0''))) = Some [?ifp]"
    by (simp add: sample_externals_def request0_def)
  have c: "ni_interface_by_name [?ifp] ''eth0'' = Some ?ifp"
    by (simp add: ni_interface_by_name_def)
  have d: "if_flags ?ifp AND IFF_UP = 0"
    by simp
  have e: "ni_dhcp_device_find ''eth0'' (state0 []) = None"
    by (simp add: ni_dhcp_device_find_def state0_def)
  from put_down_unregistered_null_dereference [OF a b c d e] a b c d e
  show ?thesis by blast
qed

text \<open>
  The same request for a name under which a device is registered: the device is stopped,
  no release is requested, its pending-notify flag is set and the handler returns 0.
\<close>

lemma put_down_registered:
  assumes "ext_dummy_open_ok X"
    and "ext_xml_to_all X (xml_in req) = Some ifs"
    and "ni_interface_by_name ifs n = Some ifp"
    and "if_flags ifp AND IFF_UP = 0"
    and "ni_dhcp_device_find n s = Some i"
  shows "\<exists>s'. dhcp_interface_put X (Some n) req s = Inr (0, req, s')
     \<and> trace s' = trace s @ [Call_dummy_open, Call_device_stop i, Call_close]
     \<and> ni_dhcp_active s'
         = (ni_dhcp_active s)[i := (ext_device_stop X (ni_dhcp_active s ! i))\<lparr>dev_notify := True\<rparr>]"
proof -
  from assms(3) have nm: "if_name ifp = n" by (rule interface_by_name_Some)
  from assms(5) have fi: "find_device n (ni_dhcp_active s) = Some i"
    by (simp add: ni_dhcp_device_find_def)
  note in_range = find_device_Some [OF fi]
  from nm assms(5) have "ni_dhcp_device_find (if_name ifp) (emit Call_dummy_open s) = Some i"
    by (simp add: ni_dhcp_device_find_def)
  with assms(4) have "put_decide X ifp (emit Call_dummy_open s)
      = (Some i, False, ni_dhcp_device_stop X i (emit Call_dummy_open s))"
    by (simp add: put_decide_def)
  with assms(1,2,3) in_range show ?thesis
    by (simp add: dhcp_interface_put_def put_finish_def ni_dhcp_device_stop_def)
qed

text \<open>
  C3. A PUT whose interface description has \<^verbatim>\<open>IFF_UP\<close> set, for a name under which no
  device is registered: exactly one device is created, with the name and the link type of
  the description, at the end of the active list; the description is applied to it by
  \<^verbatim>\<open>ni_dhcp_device_reconfigure\<close>; \<^verbatim>\<open>reacquire\<close> is set; \<^verbatim>\<open>ni_dhcp_device_start\<close> is called
  exactly when the device then has a configuration attached; the handler returns 0.
\<close>

theorem put_up_unregistered_creates_and_starts:
  assumes "ext_dummy_open_ok X"
    and "ext_xml_to_all X (xml_in req) = Some ifs"
    and "ni_interface_by_name ifs n = Some ifp"
    and "if_flags ifp AND IFF_UP \<noteq> 0"
    and "ni_dhcp_device_find n s = None"
  shows "\<exists>s1 s' d1.
       d1 = snd (ext_device_reconfigure X (new_device n (if_type ifp)) ifp)
     \<and> put_decide X ifp (emit Call_dummy_open s) = (Some (length (ni_dhcp_active s)), True, s1)
     \<and> ni_dhcp_active s1 = ni_dhcp_active s @ [d1]
     \<and> trace s1 = trace s @ [Call_dummy_open, Call_device_new n (if_type ifp),
                             Call_device_reconfigure (length (ni_dhcp_active s)) ifp]
     \<and> dhcp_interface_put X (Some n) req s = Inr (0, req, s')
     \<and> ni_dhcp_active s'
         = ni_dhcp_active s @ [if dev_config d1 \<noteq> None then ext_device_start X d1 else d1]
     \<and> trace s'
         = trace s1
           @ (if dev_config d1 \<noteq> None then [Call_device_start (length (ni_dhcp_active s))] else [])
           @ [Call_close]
     \<and> ni_dhcp_stop s' = ni_dhcp_stop s"
proof -
  let ?k = "length (ni_dhcp_active s)"
  let ?s0 = "emit Call_dummy_open s"
  obtain rv d1 where r: "ext_device_reconfigure X (new_device n (if_type ifp)) ifp = (rv, d1)"
    by (cases "ext_device_reconfigure X (new_device n (if_type ifp)) ifp")
  from assms(3) have nm: "if_name ifp = n" by (rule interface_by_name_Some)
  with assms(5) have nf: "ni_dhcp_device_find (if_name ifp) ?s0 = None"
    by (simp add: ni_dhcp_device_find_def)
  define s1 where "s1 = snd (snd (put_decide X ifp ?s0))"
  from nf assms(4) nm r have dec: "put_decide X ifp ?s0 = (Some ?k, True, s1)"
    and act1: "ni_dhcp_active s1 = ni_dhcp_active s @ [d1]"
    and tr1: "trace s1 = trace s @ [Call_dummy_open, Call_device_new n (if_type ifp),
                             Call_device_reconfigure ?k ifp]"
    and st1: "ni_dhcp_stop s1 = ni_dhcp_stop s"
    unfolding s1_def
    by (simp_all add: put_decide_def ni_dhcp_device_new_def ni_dhcp_device_reconfigure_def
        dev_at_def Let_def)
  from act1 have at: "dev_at s1 ?k = d1" by (simp add: dev_at_def)
  define s' where "s' = emit Call_close
      (if dev_config d1 \<noteq> None then ni_dhcp_device_start X ?k s1 else s1)"
  from assms(1,2,3) dec at have res: "dhcp_interface_put X (Some n) req s = Inr (0, req, s')"
    by (simp add: dhcp_interface_put_def put_finish_def s'_def)
  from act1 tr1 st1 have
    "ni_dhcp_active s' = ni_dhcp_active s @ [if dev_config d1 \<noteq> None then ext_device_start X d1 else d1]"
    "trace s' = trace s1 @ (if dev_config d1 \<noteq> None then [Call_device_start ?k] else []) @ [Call_close]"
    "ni_dhcp_stop s' = ni_dhcp_stop s"
    by (simp_all add: s'_def ni_dhcp_device_start_def)
  with dec act1 tr1 res r show ?thesis
    by auto
qed

theorem put_up_unregistered_creates_and_starts_witness:
  "ext_dummy_open_ok sample_externals
   \<and> ext_xml_to_all sample_externals (xml_in (request0 (Some ''eth0up'')))
       = Some [\<lparr>if_name = ''eth0'', if_type = 1, if_flags = 0x10001, if_settings = []\<rparr>]
   \<and> ni_interface_by_name
         [\<lparr>if_name = ''eth0'', if_type = 1, if_flags = 0x10001, if_settings = []\<rparr>] ''eth0''
       = Some \<lparr>if_name = ''eth0'', if_type = 1, if_flags = 0x10001, if_settings = []\<rparr>
   \<and> if_flags \<lparr>if_name = ''eth0'', if_type = 1, if_flags = 0x10001, if_settings = []\<rparr>
         AND IFF_UP \<noteq> 0
   \<and> ni_dhcp_device_find ''eth0'' (state0 [eth1_idle]) = None
   \<and> (\<exists>s'. dhcp_interface_put sample_externals (Some ''eth0'') (request0 (Some ''eth0up''))
              (state0 [eth1_idle])
            = Inr (0, request0 (Some ''eth0up''), s')
          \<and> ni_dhcp_active s'
              = [eth1_idle,
                 \<lparr>dev_ifname = ''eth0'', dev_iftype = 1, dev_state = NI_DHCP_STATE_REQUESTING,
                  dev_lease = None, dev_failed = False, dev_config = Some [],
                  dev_notify = False\<rparr>]
          \<and> trace s'
              = [Call_dummy_open, Call_device_new ''eth0'' 1,
                 Call_device_reconfigure 1
                   \<lparr>if_name = ''eth0'', if_type = 1, if_flags = 0x10001, if_settings = []\<rparr>,
                 Call_device_start 1, Call_close])"
proof -
  let ?ifp = "\<lparr>if_name = ''eth0'', if_type = 1, if_flags = 0x10001, if_settings = []\<rparr>"
  let ?s = "state0 [eth1_idle]"
  have a: "ext_dummy_open_ok sample_externals"
    by (simp add: sample_externals_def)
  have b: "ext_xml_to_all sample_externals (xml_in (request0 (Some ''eth0up''))) = Some [?ifp]"
    by (simp add: sample_externals_def request0_def)
  have c: "ni_interface_by_name [?ifp] ''eth0'' = Some ?ifp"
    by (simp add: ni_interface_by_name_def)
  have d: "if_flags ?ifp AND IFF_UP \<noteq> 0"
    by (simp add: IFF_UP_def)
  have e: "ni_dhcp_device_find ''eth0'' ?s = None"
    by (simp add: ni_dhcp_device_find_def state0_def eth1_idle_def)
  have d1: "snd (ext_device_reconfigure sample_externals (new_device ''eth0'' (if_type ?ifp)) ?ifp)
      = \<lparr>dev_ifname = ''eth0'', dev_iftype = 1, dev_state = NI_DHCP_STATE_OTHER 0,
         dev_lease = None, dev_failed = False, dev_config = Some [], dev_notify = False\<rparr>"
    by (simp add: sample_externals_def new_device_def)
  have st: "ext_device_start sample_externals
        \<lparr>dev_ifname = ''eth0'', dev_iftype = 1, dev_state = NI_DHCP_STATE_OTHER 0,
         dev_lease = None, dev_failed = False, dev_config = Some [], dev_notify = False\<rparr>
      = \<lparr>dev_ifname = ''eth0'', dev_iftype = 1, dev_state = NI_DHCP_STATE_REQUESTING,
         dev_lease = None, dev_failed = False, dev_config = Some [], dev_notify = False\<rparr>"
    by (simp add: sample_externals_def)
  have s0: "ni_dhcp_active ?s = [eth1_idle]" "trace ?s = []"
    by (simp_all add: state0_def)
  from put_up_unregistered_creates_and_starts [OF a b c d e]
  obtain s1 :: dhcp_state and s' d1 where h:
    "d1 = snd (ext_device_reconfigure sample_externals (new_device ''eth0'' (if_type ?ifp)) ?ifp)"
    "dhcp_interface_put sample_externals (Some ''eth0'') (request0 (Some ''eth0up'')) ?s
       = Inr (0, request0 (Some ''eth0up''), s')"
    "ni_dhcp_active s'
       = ni_dhcp_active ?s
         @ [if dev_config d1 \<noteq> None then ext_device_start sample_externals d1 else d1]"
    "trace s1 = trace ?s @ [Call_dummy_open, Call_device_new ''eth0'' (if_type ?ifp),
         Call_device_reconfigure (length (ni_dhcp_active ?s)) ?ifp]"
    "trace s'
       = trace s1
         @ (if dev_config d1 \<noteq> None then [Call_device_start (length (ni_dhcp_active ?s))] else [])
         @ [Call_close]"
    by blast
  from h(1) have d1': "d1 = \<lparr>dev_ifname = ''eth0'', dev_iftype = 1, dev_state = NI_DHCP_STATE_OTHER 0,
         dev_lease = None, dev_failed = False, dev_config = Some [], dev_notify = False\<rparr>"
    unfolding d1 .
  from h(3) have act: "ni_dhcp_active s' = [eth1_idle,
         \<lparr>dev_ifname = ''eth0'', dev_iftype = 1, dev_state = NI_DHCP_STATE_REQUESTING,
          dev_lease = None, dev_failed = False, dev_config = Some [], dev_notify = False\<rparr>]"
    unfolding d1' st s0 by simp
  from h(4,5) have tr: "trace s' = [Call_dummy_open, Call_device_new ''eth0'' 1,
         Call_device_reconfigure 1 ?ifp, Call_device_start 1, Call_close]"
    unfolding d1' s0 by simp
  from h(2) act tr a b c d e show ?thesis by blast
qed

subsection \<open>The device event notifier\<close>

text \<open>
  C7. The event for a device whose status renders is meant to be the line
  \<^verbatim>\<open>POST /system/event/<ifname>\<close>, an empty line and the rendered document, in one
  \<^verbatim>\<open>write\<close>. The text is built in a buffer of 65536 bytes through \<^verbatim>\<open>fmemopen\<close>, and no
  return value is looked at: when the text has 65536 bytes or more, the one \<^verbatim>\<open>write\<close>
  sends at most the first 65535 bytes of it, which is not the text, and nothing reports
  it. (\<open>send_event_exact_when_fits\<close> above is the case of a text that fits.)
\<close>

theorem send_event_truncates_large_document:
  assumes "dhcp_device_xml X (dev_at s i) = Some node"
    and "65536 \<le> length (event_text X (dev_at s i) node)"
  shows "\<exists>w. trace (ni_dhcp_send_device_event X i s) = trace s @ [Call_write w]
     \<and> length w \<le> 65535
     \<and> w \<noteq> event_text X (dev_at s i) node"
proof -
  let ?txt = "event_text X (dev_at s i) node"
  let ?w = "c_strlen_bytes (fmemopen_w 65536 ?txt)"
  have "length ?w \<le> length (take 65535 ?txt)"
  proof -
    have "?w = takeWhile (\<lambda>c. c \<noteq> CHR 0x00) (take 65535 ?txt)"
      by (simp add: c_strlen_bytes_def fmemopen_w_def takeWhile_snoc_stop)
    then show ?thesis by (simp add: length_takeWhile_le del: length_take)
  qed
  then have len: "length ?w \<le> 65535" by simp
  with assms(2) have "?w \<noteq> ?txt" by auto
  with assms(1) len show ?thesis
    by (simp add: ni_dhcp_send_device_event_def)
qed

theorem send_event_truncates_large_document_witness:
  "dhcp_device_xml big_externals (dev_at (state0 [eth0_bound]) 0)
     = Some (replicate 65536 (CHR ''x''))
   \<and> event_text big_externals (dev_at (state0 [eth0_bound]) 0) (replicate 65536 (CHR ''x''))
       = ''POST /system/event/eth0'' @ [CHR 0x0A, CHR 0x0A] @ replicate 65536 (CHR ''x'')
   \<and> 65536 \<le> length (event_text big_externals (dev_at (state0 [eth0_bound]) 0)
                        (replicate 65536 (CHR ''x'')))
   \<and> (\<exists>w. trace (ni_dhcp_send_device_event big_externals 0 (state0 [eth0_bound]))
              = [Call_write w]
          \<and> length w \<le> 65535
          \<and> w \<noteq> ''POST /system/event/eth0'' @ [CHR 0x0A, CHR 0x0A]
                   @ replicate 65536 (CHR ''x''))"
proof -
  let ?s = "state0 [eth0_bound]"
  let ?node = "replicate 65536 (CHR ''x'')"
  have a: "dhcp_device_xml big_externals (dev_at ?s 0) = Some ?node"
    by (simp add: dhcp_device_xml_def big_externals_def)
  have t: "event_text big_externals (dev_at ?s 0) ?node
      = ''POST /system/event/eth0'' @ [CHR 0x0A, CHR 0x0A] @ ?node"
    by (simp add: event_text_def big_externals_def sample_externals_def dev_at_def state0_def
        eth0_bound_def)
  have b: "65536 \<le> length (event_text big_externals (dev_at ?s 0) ?node)"
    unfolding t by simp
  have tr: "trace ?s = []" by (simp add: state0_def)
  from send_event_truncates_large_document [OF a b] a b
  show ?thesis unfolding t tr by simp
qed

subsection \<open>Shutdown\<close>

text \<open>
  C1. The shutdown sequence walks the active list once. For the device at each position
  it calls \<^verbatim>\<open>ni_dhcp_fsm_release\<close> exactly once if the device's state is one of
  REQUESTING, RENEWING, REBINDING, BOUND and its lease is not absent, and not at all
  otherwise; it calls \<^verbatim>\<open>ni_dhcp_device_stop\<close> exactly once for every device, after the
  release if there is one; the last call is \<^verbatim>\<open>exit(0)\<close>. Whenever the loop of
  \<^verbatim>\<open>ni_dhcp_run\<close> is left on the stop flag, the process runs this sequence and exits with
  status 0.
\<close>

theorem shutdown_releases_and_stops:
  "trace (shutdown X s)
     = trace s
       @ concat (map (\<lambda>i. (if release_due (ni_dhcp_active s ! i) then [Call_fsm_release i] else [])
                           @ [Call_device_stop i])
                   [0..<length (ni_dhcp_active s)])
       @ [Call_exit 0]
   \<and> (\<forall>i<length (ni_dhcp_active s).
         count_list (calls_since s (shutdown X s)) (Call_fsm_release i)
           = (if release_due (ni_dhcp_active s ! i) then 1 else 0)
         \<and> count_list (calls_since s (shutdown X s)) (Call_device_stop i) = 1)
   \<and> (\<forall>s1. event_loop X ps (ni_dhcp_run_startup e s0) = (Loop_break, s1) \<longrightarrow>
         ni_dhcp_run X e ps s0 = (Run_exit 0, shutdown X s1))"
proof -
  let ?cs = "concat (map (\<lambda>i. (if release_due (ni_dhcp_active s ! i) then [Call_fsm_release i] else [])
                           @ [Call_device_stop i])
                   [0..<length (ni_dhcp_active s)])"
  from shutdown_fold [of "length (ni_dhcp_active s)" s X]
  have tr: "trace (shutdown X s) = trace s @ ?cs @ [Call_exit 0]"
    by (simp add: shutdown_def)
  then have since: "calls_since s (shutdown X s) = ?cs @ [Call_exit 0]"
    by (simp add: calls_since_def)
  have run: "\<forall>s1. event_loop X ps (ni_dhcp_run_startup e s0) = (Loop_break, s1) \<longrightarrow>
         ni_dhcp_run X e ps s0 = (Run_exit 0, shutdown X s1)"
    by (simp add: ni_dhcp_run_def)
  from tr run show ?thesis
    unfolding since by (simp add: count_shutdown_release count_shutdown_stop)
qed

theorem shutdown_releases_and_stops_witness:
  "1 < length (ni_dhcp_active (state0 [eth1_idle, eth0_bound]))
   \<and> release_due (ni_dhcp_active (state0 [eth1_idle, eth0_bound]) ! 1)
   \<and> \<not> release_due (ni_dhcp_active (state0 [eth1_idle, eth0_bound]) ! 0)
   \<and> trace (shutdown sample_externals (state0 [eth1_idle, eth0_bound]))
       = [Call_device_stop 0, Call_fsm_release 1, Call_device_stop 1, Call_exit 0]
   \<and> count_list (calls_since (state0 [eth1_idle, eth0_bound])
          (shutdown sample_externals (state0 [eth1_idle, eth0_bound]))) (Call_fsm_release 1) = 1
   \<and> count_list (calls_since (state0 [eth1_idle, eth0_bound])
          (shutdown sample_externals (state0 [eth1_idle, eth0_bound]))) (Call_fsm_release 0) = 0
   \<and> count_list (calls_since (state0 [eth1_idle, eth0_bound])
          (shutdown sample_externals (state0 [eth1_idle, eth0_bound]))) (Call_device_stop 0) = 1
   \<and> event_loop sample_externals [pass_signal_in_wait]
        (ni_dhcp_run_startup failed_open_env (state0 [eth0_bound]))
       = (Loop_break,
          \<lparr>ni_dhcp_active = [eth0_bound], ni_dhcp_stop = 15,
           trace = [Call_srandom 1000172258, Call_sigaction 15, Call_sigaction 2,
                    Call_socket_activate, Call_fsm_get_timeout, Call_socket_wait,
                    Ev_signal 15, Ev_read_stop 15]\<rparr>)
   \<and> ni_dhcp_run sample_externals failed_open_env [pass_signal_in_wait] (state0 [eth0_bound])
       = (Run_exit 0,
          shutdown sample_externals
            \<lparr>ni_dhcp_active = [eth0_bound], ni_dhcp_stop = 15,
             trace = [Call_srandom 1000172258, Call_sigaction 15, Call_sigaction 2,
                      Call_socket_activate, Call_fsm_get_timeout, Call_socket_wait,
                      Ev_signal 15, Ev_read_stop 15]\<rparr>)"
proof -
  let ?s = "state0 [eth1_idle, eth0_bound]"
  let ?s1 = "\<lparr>ni_dhcp_active = [eth0_bound], ni_dhcp_stop = 15,
             trace = [Call_srandom 1000172258, Call_sigaction 15, Call_sigaction 2,
                      Call_socket_activate, Call_fsm_get_timeout, Call_socket_wait,
                      Ev_signal 15, Ev_read_stop 15]\<rparr>"
  have l: "length (ni_dhcp_active ?s) = 2" "trace ?s = []"
    by (simp_all add: state0_def)
  have r1: "release_due (ni_dhcp_active ?s ! 1)" and r0: "\<not> release_due (ni_dhcp_active ?s ! 0)"
    by (simp_all add: state0_def release_due_def eth0_bound_def eth1_idle_def)
  have loop: "event_loop sample_externals [pass_signal_in_wait]
        (ni_dhcp_run_startup failed_open_env (state0 [eth0_bound])) = (Loop_break, ?s1)"
    by (simp add: startup_trace failed_open_seed state0_def pass_signal_in_wait_def
        ni_socket_wait_def deliver_def catch_fatal_signals_def emit_def Let_def)
  note inst = shutdown_releases_and_stops [of sample_externals ?s "[pass_signal_in_wait]"
      failed_open_env "state0 [eth0_bound]"]
  from inst have tr: "trace (shutdown sample_externals ?s)
       = [Call_device_stop 0, Call_fsm_release 1, Call_device_stop 1, Call_exit 0]"
    unfolding l using r1 r0 by (simp add: upt_rec [of 0] upt_rec [of 1] upt_rec [of "Suc 0"])
  from inst l have c: "\<forall>i<2.
         count_list (calls_since ?s (shutdown sample_externals ?s)) (Call_fsm_release i)
           = (if release_due (ni_dhcp_active ?s ! i) then 1 else 0)
         \<and> count_list (calls_since ?s (shutdown sample_externals ?s)) (Call_device_stop i) = 1"
    by simp
  from c r1 have c1: "count_list (calls_since ?s (shutdown sample_externals ?s)) (Call_fsm_release 1) = 1"
    by simp
  from c r0 have c0: "count_list (calls_since ?s (shutdown sample_externals ?s)) (Call_fsm_release 0) = 0"
    by simp
  from c have c2: "count_list (calls_since ?s (shutdown sample_externals ?s)) (Call_device_stop 0) = 1"
    by simp
  from inst loop have run: "ni_dhcp_run sample_externals failed_open_env [pass_signal_in_wait]
       (state0 [eth0_bound]) = (Run_exit 0, shutdown sample_externals ?s1)"
    by blast
  from l r1 r0 tr c1 c0 c2 loop run show ?thesis
    by simp
qed

subsection \<open>The event loop\<close>

text \<open>
  C8, as the code has it. A pass of the loop whose wait for the sockets fails ends the
  process by \<^verbatim>\<open>ni_fatal\<close>, without a read of the stop flag and without the shutdown
  sequence. In every other pass the flag is read exactly once, after the wait has returned
  and before the timer sweep, and the value read is the signal recorded last until then.
  When it is read as set, the loop is left at that read: the pass runs neither its timer
  sweep nor its drain of the changed devices. When it is read as clear, the timer sweep
  and the drain of that pass run to completion, whatever signals are delivered meanwhile;
  a signal delivered during them stays recorded, and the next pass leaves the loop at its
  read of the flag, unless its wait fails. Over a whole run: one read per wait that did
  not fail, one sweep and one completed drain per read that found the flag clear, and the
  loop is left on the flag only directly at a read that found it set.
\<close>

theorem event_loop_observes_flag_between_passes:
  "(wait_ret p < 0 \<longrightarrow>
      fst (event_loop X (p # ps) s) = Loop_fatal
      \<and> calls_since s (snd (event_loop X (p # ps) s))
          = [Call_fsm_get_timeout, Call_socket_wait] @ sig_events (sig_wait p)
              @ [Call_ni_fatal])
   \<and> (\<not> wait_ret p < 0 \<and> recorded (sig_wait p) (ni_dhcp_stop s) \<noteq> 0 \<longrightarrow>
      fst (event_loop X (p # ps) s) = Loop_break
      \<and> calls_since s (snd (event_loop X (p # ps) s))
          = [Call_fsm_get_timeout, Call_socket_wait] @ sig_events (sig_wait p)
              @ [Ev_read_stop (recorded (sig_wait p) (ni_dhcp_stop s))])
   \<and> (\<not> wait_ret p < 0 \<and> recorded (sig_wait p) (ni_dhcp_stop s) = 0 \<longrightarrow>
      (\<exists>s2 cs. event_loop X (p # ps) s = event_loop X ps s2
         \<and> calls_since s s2
             = [Call_fsm_get_timeout, Call_socket_wait] @ sig_events (sig_wait p)
                 @ [Ev_read_stop 0, Call_fsm_check_timeout] @ sig_events (sig_sweep p)
                 @ cs @ [Call_device_get_changed None] @ sig_events (sig_drain p)
         \<and> (\<forall>c\<in>set cs. notify_call c)
         \<and> ni_dhcp_stop s2 = recorded (sig_sweep p @ sig_drain p) 0))
   \<and> (\<not> wait_ret p < 0 \<and> recorded (sig_wait p) (ni_dhcp_stop s) = 0
        \<and> sig_sweep p @ sig_drain p \<noteq> [] \<longrightarrow>
      (wait_ret q < 0 \<longrightarrow> fst (event_loop X (p # q # ps) s) = Loop_fatal)
      \<and> (\<not> wait_ret q < 0 \<longrightarrow>
           fst (event_loop X (p # q # ps) s) = Loop_break
           \<and> recorded (sig_wait q) (recorded (sig_sweep p @ sig_drain p) 0) \<noteq> 0
           \<and> (\<exists>cs. calls_since s (snd (event_loop X (p # q # ps) s))
                  = [Call_fsm_get_timeout, Call_socket_wait] @ sig_events (sig_wait p)
                      @ [Ev_read_stop 0, Call_fsm_check_timeout] @ sig_events (sig_sweep p)
                      @ cs @ [Call_device_get_changed None] @ sig_events (sig_drain p)
                      @ [Call_fsm_get_timeout, Call_socket_wait] @ sig_events (sig_wait q)
                      @ [Ev_read_stop
                           (recorded (sig_wait q) (recorded (sig_sweep p @ sig_drain p) 0))]
                \<and> (\<forall>c\<in>set cs. notify_call c))))
   \<and> trace (snd (event_loop X rs s0)) = trace s0 @ calls_since s0 (snd (event_loop X rs s0))
   \<and> count_list (calls_since s0 (snd (event_loop X rs s0))) Call_socket_wait
       = length (filter is_read_stop (calls_since s0 (snd (event_loop X rs s0))))
         + (if fst (event_loop X rs s0) = Loop_fatal then 1 else 0)
   \<and> length (filter is_read_stop (calls_since s0 (snd (event_loop X rs s0))))
       = count_list (calls_since s0 (snd (event_loop X rs s0))) (Ev_read_stop 0)
         + (if fst (event_loop X rs s0) = Loop_break then 1 else 0)
   \<and> count_list (calls_since s0 (snd (event_loop X rs s0))) Call_fsm_check_timeout
       = count_list (calls_since s0 (snd (event_loop X rs s0))) (Ev_read_stop 0)
   \<and> count_list (calls_since s0 (snd (event_loop X rs s0))) (Call_device_get_changed None)
       = count_list (calls_since s0 (snd (event_loop X rs s0))) Call_fsm_check_timeout
   \<and> (fst (event_loop X rs s0) = Loop_break \<longrightarrow>
        calls_since s0 (snd (event_loop X rs s0)) \<noteq> []
        \<and> (\<exists>v. v \<noteq> 0 \<and> last (calls_since s0 (snd (event_loop X rs s0))) = Ev_read_stop v))"
proof -
  have A: "fst (event_loop X (p # ps) s) = Loop_fatal
      \<and> calls_since s (snd (event_loop X (p # ps) s))
          = [Call_fsm_get_timeout, Call_socket_wait] @ sig_events (sig_wait p)
              @ [Call_ni_fatal]"
    if "wait_ret p < 0"
    using pass_fatal [OF that, of X ps s] by (simp add: calls_since_def)
  have B: "fst (event_loop X (p # ps) s) = Loop_break
      \<and> calls_since s (snd (event_loop X (p # ps) s))
          = [Call_fsm_get_timeout, Call_socket_wait] @ sig_events (sig_wait p)
              @ [Ev_read_stop (recorded (sig_wait p) (ni_dhcp_stop s))]"
    if "\<not> wait_ret p < 0" "recorded (sig_wait p) (ni_dhcp_stop s) \<noteq> 0"
    using pass_break [OF that, of X ps] by (simp add: calls_since_def)
  have C: "\<exists>s2 cs. event_loop X (p # ps') s = event_loop X ps' s2
         \<and> calls_since s s2
             = [Call_fsm_get_timeout, Call_socket_wait] @ sig_events (sig_wait p)
                 @ [Ev_read_stop 0, Call_fsm_check_timeout] @ sig_events (sig_sweep p)
                 @ cs @ [Call_device_get_changed None] @ sig_events (sig_drain p)
         \<and> (\<forall>c\<in>set cs. notify_call c)
         \<and> ni_dhcp_stop s2 = recorded (sig_sweep p @ sig_drain p) 0"
    if "\<not> wait_ret p < 0" "recorded (sig_wait p) (ni_dhcp_stop s) = 0" for ps'
  proof -
    from pass_continue [OF that, of X ps'] obtain s2 cs where
      h: "event_loop X (p # ps') s = event_loop X ps' s2"
      "trace s2
         = trace s @ [Call_fsm_get_timeout, Call_socket_wait] @ sig_events (sig_wait p)
             @ [Ev_read_stop 0, Call_fsm_check_timeout] @ sig_events (sig_sweep p)
             @ cs @ [Call_device_get_changed None] @ sig_events (sig_drain p)"
      "\<forall>c\<in>set cs. notify_call c"
      "ni_dhcp_stop s2 = recorded (sig_sweep p @ sig_drain p) 0"
      by blast
    from h(2) have "calls_since s s2
             = [Call_fsm_get_timeout, Call_socket_wait] @ sig_events (sig_wait p)
                 @ [Ev_read_stop 0, Call_fsm_check_timeout] @ sig_events (sig_sweep p)
                 @ cs @ [Call_device_get_changed None] @ sig_events (sig_drain p)"
      by (simp add: calls_since_def)
    with h(1,3,4) show ?thesis by blast
  qed
  have D: "(wait_ret q < 0 \<longrightarrow> fst (event_loop X (p # q # ps) s) = Loop_fatal)
      \<and> (\<not> wait_ret q < 0 \<longrightarrow>
           fst (event_loop X (p # q # ps) s) = Loop_break
           \<and> recorded (sig_wait q) (recorded (sig_sweep p @ sig_drain p) 0) \<noteq> 0
           \<and> (\<exists>cs. calls_since s (snd (event_loop X (p # q # ps) s))
                  = [Call_fsm_get_timeout, Call_socket_wait] @ sig_events (sig_wait p)
                      @ [Ev_read_stop 0, Call_fsm_check_timeout] @ sig_events (sig_sweep p)
                      @ cs @ [Call_device_get_changed None] @ sig_events (sig_drain p)
                      @ [Call_fsm_get_timeout, Call_socket_wait] @ sig_events (sig_wait q)
                      @ [Ev_read_stop
                           (recorded (sig_wait q) (recorded (sig_sweep p @ sig_drain p) 0))]
                \<and> (\<forall>c\<in>set cs. notify_call c)))"
    if c: "\<not> wait_ret p < 0" "recorded (sig_wait p) (ni_dhcp_stop s) = 0"
      and sg: "sig_sweep p @ sig_drain p \<noteq> []"
  proof -
    from pass_continue [OF c, of X "q # ps"] obtain s2 cs where
      h: "event_loop X (p # q # ps) s = event_loop X (q # ps) s2"
      "trace s2
         = trace s @ [Call_fsm_get_timeout, Call_socket_wait] @ sig_events (sig_wait p)
             @ [Ev_read_stop 0, Call_fsm_check_timeout] @ sig_events (sig_sweep p)
             @ cs @ [Call_device_get_changed None] @ sig_events (sig_drain p)"
      "\<forall>c\<in>set cs. notify_call c"
      "ni_dhcp_stop s2 = recorded (sig_sweep p @ sig_drain p) 0"
      by blast
    from sg have nz: "recorded (sig_sweep p @ sig_drain p) 0 \<noteq> 0"
      by (rule recorded_simps(2))
    then have nz': "recorded (sig_wait q) (recorded (sig_sweep p @ sig_drain p) 0) \<noteq> 0"
      by (rule recorded_simps(3))
    have f: "fst (event_loop X (p # q # ps) s) = Loop_fatal" if "wait_ret q < 0"
      unfolding h(1) using pass_fatal [OF that, of X ps s2] by simp
    have b: "fst (event_loop X (p # q # ps) s) = Loop_break
        \<and> (\<exists>cs. calls_since s (snd (event_loop X (p # q # ps) s))
                  = [Call_fsm_get_timeout, Call_socket_wait] @ sig_events (sig_wait p)
                      @ [Ev_read_stop 0, Call_fsm_check_timeout] @ sig_events (sig_sweep p)
                      @ cs @ [Call_device_get_changed None] @ sig_events (sig_drain p)
                      @ [Call_fsm_get_timeout, Call_socket_wait] @ sig_events (sig_wait q)
                      @ [Ev_read_stop
                           (recorded (sig_wait q) (recorded (sig_sweep p @ sig_drain p) 0))]
                \<and> (\<forall>c\<in>set cs. notify_call c))"
      if w: "\<not> wait_ret q < 0"
    proof -
      from nz' h(4) have "recorded (sig_wait q) (ni_dhcp_stop s2) \<noteq> 0" by simp
      from pass_break [OF w this, of X ps] h(4)
      have br: "fst (event_loop X (q # ps) s2) = Loop_break"
        "trace (snd (event_loop X (q # ps) s2))
           = trace s2 @ [Call_fsm_get_timeout, Call_socket_wait] @ sig_events (sig_wait q)
               @ [Ev_read_stop (recorded (sig_wait q) (recorded (sig_sweep p @ sig_drain p) 0))]"
        by simp_all
      from br(2) h(2) have "calls_since s (snd (event_loop X (p # q # ps) s))
                  = [Call_fsm_get_timeout, Call_socket_wait] @ sig_events (sig_wait p)
                      @ [Ev_read_stop 0, Call_fsm_check_timeout] @ sig_events (sig_sweep p)
                      @ cs @ [Call_device_get_changed None] @ sig_events (sig_drain p)
                      @ [Call_fsm_get_timeout, Call_socket_wait] @ sig_events (sig_wait q)
                      @ [Ev_read_stop
                           (recorded (sig_wait q) (recorded (sig_sweep p @ sig_drain p) 0))]"
        unfolding h(1) by (simp add: calls_since_def)
      with br(1) h(1,3) show ?thesis by auto
    qed
    from f b nz' show ?thesis by blast
  qed
  from event_loop_calls [of X rs s0] obtain cs where
    cs: "trace (snd (event_loop X rs s0)) = trace s0 @ cs"
    and rest: "count_list cs Call_socket_wait
         = length (filter is_read_stop cs)
           + (if fst (event_loop X rs s0) = Loop_fatal then 1 else 0)"
      "length (filter is_read_stop cs)
         = count_list cs (Ev_read_stop 0)
           + (if fst (event_loop X rs s0) = Loop_break then 1 else 0)"
      "count_list cs Call_fsm_check_timeout = count_list cs (Ev_read_stop 0)"
      "count_list cs (Call_device_get_changed None) = count_list cs Call_fsm_check_timeout"
      "fst (event_loop X rs s0) = Loop_break \<longrightarrow>
          cs \<noteq> [] \<and> (\<exists>v. v \<noteq> 0 \<and> last cs = Ev_read_stop v)"
    by blast
  from cs have since: "calls_since s0 (snd (event_loop X rs s0)) = cs"
    by (simp add: calls_since_def)
  note E = cs rest
  show ?thesis
    unfolding since
    apply (intro conjI impI)
    using A B C [of ps] D E by simp_all
qed

theorem event_loop_observes_flag_between_passes_witness:
  "wait_ret pass_wait_fails < 0
   \<and> fst (event_loop sample_externals [pass_wait_fails] (state0 [eth0_bound])) = Loop_fatal
   \<and> calls_since (state0 [eth0_bound])
        (snd (event_loop sample_externals [pass_wait_fails] (state0 [eth0_bound])))
       = [Call_fsm_get_timeout, Call_socket_wait, Call_ni_fatal]
   \<and> \<not> wait_ret pass_signal_in_wait < 0
   \<and> recorded (sig_wait pass_signal_in_wait) (ni_dhcp_stop (state0 [eth0_bound])) = 15
   \<and> fst (event_loop sample_externals [pass_signal_in_wait] (state0 [eth0_bound])) = Loop_break
   \<and> calls_since (state0 [eth0_bound])
        (snd (event_loop sample_externals [pass_signal_in_wait] (state0 [eth0_bound])))
       = [Call_fsm_get_timeout, Call_socket_wait, Ev_signal 15, Ev_read_stop 15]
   \<and> \<not> wait_ret pass_signal_in_sweep < 0
   \<and> recorded (sig_wait pass_signal_in_sweep) (ni_dhcp_stop (state0 [eth0_bound])) = 0
   \<and> sig_sweep pass_signal_in_sweep @ sig_drain pass_signal_in_sweep = [SIGTERM]
   \<and> \<not> wait_ret pass_quiet < 0
   \<and> fst (event_loop sample_externals [pass_signal_in_sweep, pass_quiet] (state0 [eth0_bound]))
       = Loop_break
   \<and> (\<exists>cs. calls_since (state0 [eth0_bound])
              (snd (event_loop sample_externals [pass_signal_in_sweep, pass_quiet]
                 (state0 [eth0_bound])))
            = [Call_fsm_get_timeout, Call_socket_wait, Ev_read_stop 0, Call_fsm_check_timeout,
               Ev_signal 15] @ cs
              @ [Call_device_get_changed None, Call_fsm_get_timeout, Call_socket_wait,
                 Ev_read_stop 15]
          \<and> (\<forall>c\<in>set cs. notify_call c))
   \<and> calls_since (state0 [eth0_bound])
        (snd (event_loop sample_externals [pass_signal_in_sweep, pass_quiet] (state0 [eth0_bound])))
       = [Call_fsm_get_timeout, Call_socket_wait, Ev_read_stop 0, Call_fsm_check_timeout,
          Ev_signal 15, Call_device_get_changed (Some 0),
          Call_write (''POST /system/event/eth0'' @ [CHR 0x0A, CHR 0x0A]
                       @ ''<lease><state>granted</state></lease>''),
          Call_device_get_changed None,
          Call_fsm_get_timeout, Call_socket_wait, Ev_read_stop 15]
   \<and> fst (event_loop sample_externals [pass_signal_in_sweep, pass_wait_fails]
          (state0 [eth0_bound])) = Loop_fatal"
proof -
  let ?s = "state0 [eth0_bound]"
  have st: "ni_dhcp_stop ?s = 0"
    by (simp add: state0_def)
  have h1: "wait_ret pass_wait_fails < 0"
    by (simp add: pass_wait_fails_def)
  have e1: "sig_events (sig_wait pass_wait_fails) = []"
    by (simp add: pass_wait_fails_def sig_events_def)
  have h2: "\<not> wait_ret pass_signal_in_wait < 0"
    and r2: "recorded (sig_wait pass_signal_in_wait) (ni_dhcp_stop ?s) = 15"
    and e2: "sig_events (sig_wait pass_signal_in_wait) = [Ev_signal 15]"
    by (simp_all add: pass_signal_in_wait_def recorded_def sig_events_def)
  have h3: "\<not> wait_ret pass_signal_in_sweep < 0"
    and r3: "recorded (sig_wait pass_signal_in_sweep) (ni_dhcp_stop ?s) = 0"
    and g3: "sig_sweep pass_signal_in_sweep @ sig_drain pass_signal_in_sweep = [SIGTERM]"
    and e3: "sig_events (sig_wait pass_signal_in_sweep) = []"
      "sig_events (sig_sweep pass_signal_in_sweep) = [Ev_signal 15]"
      "sig_events (sig_drain pass_signal_in_sweep) = []"
    by (simp_all add: pass_signal_in_sweep_def recorded_def sig_events_def st)
  have h4: "\<not> wait_ret pass_quiet < 0"
    and e4: "sig_events (sig_wait pass_quiet) = []"
    and r4: "recorded (sig_wait pass_quiet) (recorded [SIGTERM] 0) = 15"
    by (simp_all add: pass_quiet_def recorded_def sig_events_def)
  note i1 = event_loop_observes_flag_between_passes
    [where p = pass_wait_fails and X = sample_externals and ps = "[]" and s = ?s
       and q = pass_quiet and rs = "[]" and ?s0.0 = ?s]
  from i1 h1 have c1: "fst (event_loop sample_externals [pass_wait_fails] ?s) = Loop_fatal"
    "calls_since ?s (snd (event_loop sample_externals [pass_wait_fails] ?s))
       = [Call_fsm_get_timeout, Call_socket_wait] @ sig_events (sig_wait pass_wait_fails)
           @ [Call_ni_fatal]"
    by blast+
  note i2 = event_loop_observes_flag_between_passes
    [where p = pass_signal_in_wait and X = sample_externals and ps = "[]" and s = ?s
       and q = pass_quiet and rs = "[]" and ?s0.0 = ?s]
  from r2 have r2': "recorded (sig_wait pass_signal_in_wait) (ni_dhcp_stop ?s) \<noteq> 0"
    by simp
  from i2 h2 r2' have c2: "fst (event_loop sample_externals [pass_signal_in_wait] ?s) = Loop_break"
    "calls_since ?s (snd (event_loop sample_externals [pass_signal_in_wait] ?s))
       = [Call_fsm_get_timeout, Call_socket_wait] @ sig_events (sig_wait pass_signal_in_wait)
           @ [Ev_read_stop (recorded (sig_wait pass_signal_in_wait) (ni_dhcp_stop ?s))]"
    by blast+
  note i3 = event_loop_observes_flag_between_passes
    [where p = pass_signal_in_sweep and X = sample_externals and ps = "[]" and s = ?s
       and q = pass_quiet and rs = "[]" and ?s0.0 = ?s]
  from g3 have g3': "sig_sweep pass_signal_in_sweep @ sig_drain pass_signal_in_sweep \<noteq> []"
    by simp
  from i3 h3 r3 g3' h4 have c3:
    "fst (event_loop sample_externals [pass_signal_in_sweep, pass_quiet] ?s) = Loop_break"
    "\<exists>cs. calls_since ?s (snd (event_loop sample_externals [pass_signal_in_sweep, pass_quiet] ?s))
        = [Call_fsm_get_timeout, Call_socket_wait] @ sig_events (sig_wait pass_signal_in_sweep)
            @ [Ev_read_stop 0, Call_fsm_check_timeout] @ sig_events (sig_sweep pass_signal_in_sweep)
            @ cs @ [Call_device_get_changed None] @ sig_events (sig_drain pass_signal_in_sweep)
            @ [Call_fsm_get_timeout, Call_socket_wait] @ sig_events (sig_wait pass_quiet)
            @ [Ev_read_stop
                 (recorded (sig_wait pass_quiet)
                    (recorded (sig_sweep pass_signal_in_sweep @ sig_drain pass_signal_in_sweep) 0))]
      \<and> (\<forall>c\<in>set cs. notify_call c)"
    by blast+
  from c3(2) have c3': "\<exists>cs. calls_since ?s
          (snd (event_loop sample_externals [pass_signal_in_sweep, pass_quiet] ?s))
        = [Call_fsm_get_timeout, Call_socket_wait, Ev_read_stop 0, Call_fsm_check_timeout,
               Ev_signal 15] @ cs
              @ [Call_device_get_changed None, Call_fsm_get_timeout, Call_socket_wait,
                 Ev_read_stop 15]
      \<and> (\<forall>c\<in>set cs. notify_call c)"
    unfolding e3 e4 g3 r4 by simp
  note i4 = event_loop_observes_flag_between_passes
    [where p = pass_signal_in_sweep and X = sample_externals and ps = "[]" and s = ?s
       and q = pass_wait_fails and rs = "[]" and ?s0.0 = ?s]
  from i4 h3 r3 g3' h1 have c4:
    "fst (event_loop sample_externals [pass_signal_in_sweep, pass_wait_fails] ?s) = Loop_fatal"
    by blast
  have ev: "calls_since ?s (snd (event_loop sample_externals [pass_signal_in_sweep, pass_quiet] ?s))
       = [Call_fsm_get_timeout, Call_socket_wait, Ev_read_stop 0, Call_fsm_check_timeout,
          Ev_signal 15, Call_device_get_changed (Some 0),
          Call_write (''POST /system/event/eth0'' @ [CHR 0x0A, CHR 0x0A]
                       @ ''<lease><state>granted</state></lease>''),
          Call_device_get_changed None,
          Call_fsm_get_timeout, Call_socket_wait, Ev_read_stop 15]"
    unfolding loop_signal_in_sweep by (simp add: calls_since_def state0_def)
  from c1(2) have c1': "calls_since ?s (snd (event_loop sample_externals [pass_wait_fails] ?s))
       = [Call_fsm_get_timeout, Call_socket_wait, Call_ni_fatal]"
    unfolding e1 by simp
  from c2(2) have c2': "calls_since ?s (snd (event_loop sample_externals [pass_signal_in_wait] ?s))
       = [Call_fsm_get_timeout, Call_socket_wait, Ev_signal 15, Ev_read_stop 15]"
    unfolding e2 r2 by simp
  from h1 c1(1) c1' h2 r2 c2(1) c2' h3 r3 g3 h4 c3(1) c3' ev c4 show ?thesis
    by (intro conjI)
qed

text \<open>
  C8, as the specification words it, fails when the signal arrives while the process
  waits for the sockets: the flag is found set in the same pass, the loop is left, and
  the timer sweep and the drain of that pass do not run, although a device is flagged as
  changed.
\<close>

theorem signal_in_wait_skips_sweep_counterexample:
  "fst (event_loop sample_externals [pass_signal_in_wait]
          (state0 [eth0_bound\<lparr>dev_notify := True\<rparr>])) = Loop_break
   \<and> trace (snd (event_loop sample_externals [pass_signal_in_wait]
          (state0 [eth0_bound\<lparr>dev_notify := True\<rparr>])))
       = [Call_fsm_get_timeout, Call_socket_wait, Ev_signal 15, Ev_read_stop 15]
   \<and> count_list (trace (snd (event_loop sample_externals [pass_signal_in_wait]
          (state0 [eth0_bound\<lparr>dev_notify := True\<rparr>])))) Call_fsm_check_timeout = 0
   \<and> count_list (trace (snd (event_loop sample_externals [pass_signal_in_wait]
          (state0 [eth0_bound\<lparr>dev_notify := True\<rparr>])))) (Call_device_get_changed None) = 0
   \<and> dev_notify (ni_dhcp_active (snd (event_loop sample_externals [pass_signal_in_wait]
          (state0 [eth0_bound\<lparr>dev_notify := True\<rparr>]))) ! 0)"
  unfolding loop_signal_in_wait by simp

end
